theory Spec2Isabelle
  imports Complex_Main "HOL-Library.Word"
begin

section \<open>Sampling from a character RBM: a model of \<open>char_rbm/sampling.py\<close>\<close>

text \<open>
  The source drives Gibbs sampling from a trained model. Everything here follows
  \<open>sampling.py\<close> function by function. Conventions:
  \<^item> a float is the real number it denotes, and a numpy float array is a list of them; the
    operations on floats, which round, are not those of the reals: they are the fields of
    \<open>arith\<close> below, and every statement holds for whatever they compute; an index out of
    range raises \<open>IndexError\<close>;
  \<^item> an exception is a value of \<open>error\<close>; a function that mutates an object before it
    raises returns the object as it stands at the raise;
  \<^item> objects the source shares by reference (the model inside a \<open>shrink_model\<close>) are a
    field of the record that holds the reference, so there is one copy of their state;
  \<^item> a symbol of the alphabet is a \<open>char\<close>, an index into the alphabet a \<open>nat\<close>;
  \<^item> the language is Python 3: \<open>/\<close> is true division, and raises \<open>ZeroDivisionError\<close>
    on a zero divisor.
\<close>

subsection \<open>Exceptions, the codec and the model\<close>

datatype error =
    AssertionError
  | KeyError
  | IndexError
  | TypeError
  | ValueError
  | ZeroDivisionError
  | BadInitMethodException string

text \<open>
  \<open>model.codec\<close>: the fields the source reads. \<open>char_lookup\<close> is a dict from symbols to
  their index in the alphabet.
\<close>

record codec =
  maxlen :: nat
  nchars :: nat
  filler :: char
  char_lookup :: "char \<rightharpoonup> nat"

text \<open>
  The model: its codec and \<open>intercept_visible_\<close>, the one-dimensional array of visible
  biases. The entry of symbol index \<open>c\<close> at position \<open>posn\<close> is at
  \<open>nchars * posn + c\<close>.
\<close>

record rbm =
  codec :: codec
  intercept_visible :: "real list"

text \<open>
  The arithmetic of floats: \<open>+\<close>, \<open>-\<close>, \<open>*\<close>, \<open>/\<close> (on a divisor that is not zero) and
  \<open>**\<close>, which may raise. With IEEE doubles each is the exact operation followed by a
  rounding.
\<close>

record arith =
  float_add :: "real \<Rightarrow> real \<Rightarrow> real"
  float_sub :: "real \<Rightarrow> real \<Rightarrow> real"
  float_mul :: "real \<Rightarrow> real \<Rightarrow> real"
  float_div :: "real \<Rightarrow> real \<Rightarrow> real"
  float_pow :: "real \<Rightarrow> real \<Rightarrow> error + real"

definition BIG_NUMBER :: real where
  "BIG_NUMBER = 3.0"

subsection \<open>\<open>shrink_model\<close>: the scoped length constraint\<close>

record shrink_model =
  model :: rbm
  min_length :: nat
  max_length :: nat
  prev_biases :: "real list"

text \<open>
  \<open>__init__\<close>: the two assertions, then the fields. After the assertions both lengths are
  non-negative, so they are stored as naturals.
\<close>

definition shrink_model_init :: "rbm \<Rightarrow> int \<Rightarrow> int \<Rightarrow> error + shrink_model" where
  "shrink_model_init m mn mx =
     (if \<not> (1 \<le> mx \<and> mx \<le> int (maxlen (codec m))) then Inl AssertionError
      else if \<not> (0 \<le> mn \<and> mn \<le> int (maxlen (codec m))) then Inl AssertionError
      else Inr \<lparr>model = m, min_length = nat mn, max_length = nat mx, prev_biases = []\<rparr>)"

text \<open>
  The list comprehension of \<open>__enter__\<close>:
  \<open>[iv[nchars * posn + padidx] for posn in range(maxlen)]\<close>, over the positions given.
\<close>

fun read_biases :: "real list \<Rightarrow> nat \<Rightarrow> nat \<Rightarrow> nat list \<Rightarrow> error + real list" where
  "read_biases iv nc padidx [] = Inr []"
| "read_biases iv nc padidx (posn # ps) =
     (if nc * posn + padidx < length iv
      then (case read_biases iv nc padidx ps of
              Inl e \<Rightarrow> Inl e
            | Inr bs \<Rightarrow> Inr (iv ! (nc * posn + padidx) # bs))
      else Inl IndexError)"

text \<open>
  The two \<open>for\<close> loops of \<open>__enter__\<close>: \<open>iv[nchars * posn + padidx] += v\<close> for each
  position in turn, with the addition \<open>fadd\<close> of floats. An index out of range stops the
  loop with what was written so far.
\<close>

fun add_biases ::
  "(real \<Rightarrow> real \<Rightarrow> real) \<Rightarrow> real list \<Rightarrow> nat \<Rightarrow> nat \<Rightarrow> real \<Rightarrow> nat list
     \<Rightarrow> error option \<times> real list" where
  "add_biases fadd iv nc padidx v [] = (None, iv)"
| "add_biases fadd iv nc padidx v (posn # ps) =
     (if nc * posn + padidx < length iv
      then add_biases fadd (iv[nc * posn + padidx := fadd (iv ! (nc * posn + padidx)) v])
             nc padidx v ps
      else (Some IndexError, iv))"

text \<open>
  The loop of \<open>__exit__\<close> over \<open>enumerate(self.prev_biases)\<close>:
  \<open>iv[nchars * posn + padidx] = bias\<close>.
\<close>

fun write_biases :: "real list \<Rightarrow> nat \<Rightarrow> nat \<Rightarrow> (nat \<times> real) list \<Rightarrow> error option \<times> real list" where
  "write_biases iv nc padidx [] = (None, iv)"
| "write_biases iv nc padidx ((posn, bias) # ps) =
     (if nc * posn + padidx < length iv
      then write_biases (iv[nc * posn + padidx := bias]) nc padidx ps
      else (Some IndexError, iv))"

text \<open>
  \<open>__enter__\<close>. The product \<open>-1 * BIG_NUMBER\<close> of an integer and the float 3.0 is exact.
\<close>

definition enter :: "arith \<Rightarrow> shrink_model \<Rightarrow> error option \<times> shrink_model" where
  "enter ar self =
     (let c = codec (model self); iv = intercept_visible (model self) in
      case char_lookup c (filler c) of
        None \<Rightarrow> (Some KeyError, self)
      | Some padidx \<Rightarrow>
          (case read_biases iv (nchars c) padidx [0..<maxlen c] of
             Inl e \<Rightarrow> (Some e, self)
           | Inr bs \<Rightarrow>
               (let self1 = self\<lparr>prev_biases := bs\<rparr> in
                case add_biases (float_add ar) iv (nchars c) padidx (-1 * BIG_NUMBER)
                       [0..<min_length self1] of
                  (Some e, iv1) \<Rightarrow>
                    (Some e, self1\<lparr>model := (model self1)\<lparr>intercept_visible := iv1\<rparr>\<rparr>)
                | (None, iv1) \<Rightarrow>
                    (case add_biases (float_add ar) iv1 (nchars c) padidx BIG_NUMBER
                            [max_length self1..<maxlen c] of
                       (r, iv2) \<Rightarrow>
                         (r, self1\<lparr>model := (model self1)\<lparr>intercept_visible := iv2\<rparr>\<rparr>)))))"

definition exit :: "shrink_model \<Rightarrow> error option \<times> shrink_model" where
  "exit self =
     (let c = codec (model self) in
      case char_lookup c (filler c) of
        None \<Rightarrow> (Some KeyError, self)
      | Some padidx \<Rightarrow>
          (case write_biases (intercept_visible (model self)) (nchars c) padidx
                  (zip [0..<length (prev_biases self)] (prev_biases self)) of
             (r, iv1) \<Rightarrow> (r, self\<lparr>model := (model self)\<lparr>intercept_visible := iv1\<rparr>\<rparr>)))"

text \<open>
  \<open>with shrink_model(m, mn, mx): body\<close>. The body works on the model the scope holds and
  either returns a value or raises (\<open>Inl\<close>); \<open>__exit__\<close> runs in both cases and returns
  \<open>None\<close>, so an exception of the body propagates after it. An exception of \<open>__init__\<close> or
  \<open>__enter__\<close> propagates without the body or \<open>__exit__\<close> being run. The second component
  is the model after the statement.
\<close>

definition with_shrink_model ::
  "arith \<Rightarrow> rbm \<Rightarrow> int \<Rightarrow> int \<Rightarrow> (rbm \<Rightarrow> (error + 'a) \<times> rbm) \<Rightarrow> (error + 'a) \<times> rbm" where
  "with_shrink_model ar m mn mx body =
     (case shrink_model_init m mn mx of
        Inl e \<Rightarrow> (Inl e, m)
      | Inr self0 \<Rightarrow>
          (case enter ar self0 of
             (Some e, self1) \<Rightarrow> (Inl e, model self1)
           | (None, self1) \<Rightarrow>
               (case body (model self1) of
                  (r, m1) \<Rightarrow>
                    (case exit (self1\<lparr>model := m1\<rparr>) of
                       (Some e, self2) \<Rightarrow> (Inl e, model self2)
                     | (None, self2) \<Rightarrow> (r, model self2)))))"

subsection \<open>\<open>starting_visible_configs\<close>: the first visible states\<close>

datatype VisInit =
    zeros | biases | uniform | spaces | padding | train | chunks | silhouettes | uniform_chars

text \<open>
  What the function takes from outside \<open>sampling.py\<close>. The draws of \<open>np.random\<close> are
  arbitrary: \<open>rnd_int k\<close> is the raw value behind the \<open>k\<close>-th entry (in C order) of an
  array filled by \<open>randint\<close>, reduced into the requested range below, and \<open>rnd_length r\<close>
  is the \<open>r\<close>-th entry of the float array \<open>maxlen * .25 * np.random.randn(n) + (maxlen * .66)\<close>,
  whatever the draw and the rounding make it. \<open>softmax_and_sample\<close> and
  \<open>vectors_from_txtfile\<close> are the functions of \<open>utils\<close>: the first maps a
  three-dimensional array to the data of the array it returns (in C order), the second
  takes the file name, the codec, the limit and whether the silhouette mutagen is passed.
\<close>

record init_sources =
  rnd_int :: "nat \<Rightarrow> nat"
  rnd_length :: "nat \<Rightarrow> real"
  softmax_and_sample :: "real list list list \<Rightarrow> real list"
  vectors_from_txtfile :: "string \<Rightarrow> codec \<Rightarrow> nat \<Rightarrow> bool \<Rightarrow> error + real list list"

text \<open>
  Modelled from the spec: \<open>codec.shape()\<close> is not in the source; the spec has the bias
  vector "reshaped per position into alphabet-sized groups", that is \<open>(maxlen, nchars)\<close>.
\<close>

definition codec_shape :: "codec \<Rightarrow> nat \<times> nat" where
  "codec_shape c = (maxlen c, nchars c)"

text \<open>\<open>chop n k xs\<close>: the \<open>n\<close> rows of length \<open>k\<close> of the data \<open>xs\<close> in C order.\<close>

fun chop :: "nat \<Rightarrow> nat \<Rightarrow> 'a list \<Rightarrow> 'a list list" where
  "chop 0 k xs = []"
| "chop (Suc n) k xs = take k xs # chop n k (drop k xs)"

text \<open>\<open>a.reshape((n, k))\<close> on the data of \<open>a\<close>: the sizes must agree.\<close>

definition np_reshape2 :: "'a list \<Rightarrow> nat \<Rightarrow> nat \<Rightarrow> error + 'a list list" where
  "np_reshape2 flat n k = (if length flat = n * k then Inr (chop n k flat) else Inl ValueError)"

text \<open>
  \<open>a.reshape((-1, d1, d2))\<close>: numpy infers the first dimension, and refuses when the known
  dimensions multiply to zero or do not divide the size.
\<close>

definition np_reshape_infer :: "'a list \<Rightarrow> nat \<times> nat \<Rightarrow> error + 'a list list list" where
  "np_reshape_infer flat shape =
     (case shape of (d1, d2) \<Rightarrow>
        if d1 * d2 = 0 \<or> length flat mod (d1 * d2) \<noteq> 0 then Inl ValueError
        else Inr (map (chop d1 d2) (chop (length flat div (d1 * d2)) (d1 * d2) flat)))"

text \<open>Row \<open>c\<close> of \<open>np.eye(nc)\<close>, and \<open>np.eye(nc)[idxs]\<close> for a flat array of indices.\<close>

definition eye_row :: "nat \<Rightarrow> nat \<Rightarrow> real list" where
  "eye_row nc c = (replicate nc 0)[c := 1]"

definition eye_rows :: "nat \<Rightarrow> nat list \<Rightarrow> error + real list list" where
  "eye_rows nc idxs =
     (if list_all (\<lambda>c. c < nc) idxs then Inr (map (eye_row nc) idxs) else Inl IndexError)"

definition np_clip :: "real \<Rightarrow> real \<Rightarrow> real \<Rightarrow> real" where
  "np_clip x lo hi = min (max x lo) hi"

text \<open>\<open>astype('int8')\<close> of a float: the fraction is dropped, the integer wraps to 8 bits.\<close>

definition to_int8 :: "real \<Rightarrow> int" where
  "to_int8 x = sint (word_of_int (if 0 \<le> x then \<lfloor>x\<rfloor> else \<lceil>x\<rceil>) :: 8 word)"

text \<open>
  The function. \<open>init_method\<close> is \<open>None\<close> for a value that is no member of \<open>VisInit\<close>; \<open>n\<close> is
  a number of rows, so a natural. A batch is the list of its rows.
\<close>

definition starting_visible_configs ::
  "init_sources \<Rightarrow> VisInit option \<Rightarrow> nat \<Rightarrow> rbm \<Rightarrow> string option \<Rightarrow> error + real list list" where
  "starting_visible_configs env init_method n m training_examples_fname =
     (let vis_len = length (intercept_visible m);
          ml = maxlen (codec m); nc = nchars (codec m) in
      if init_method = Some biases then
        (case np_reshape_infer (concat (replicate n (intercept_visible m))) (codec_shape (codec m)) of
           Inl e \<Rightarrow> Inl e
         | Inr sm \<Rightarrow> np_reshape2 (softmax_and_sample env sm) n vis_len)
      else if init_method = Some zeros then
        Inr (replicate n (replicate vis_len 0))
      else if init_method = Some uniform then
        Inr (map (\<lambda>r. map (\<lambda>j. real (rnd_int env (r * vis_len + j) mod 2)) [0..<vis_len]) [0..<n])
      else if init_method = Some spaces \<or> init_method = Some padding then
        (let fillchar = (if init_method = Some spaces then CHR '' '' else filler (codec m));
             vis = replicate n (replicate (fst (codec_shape (codec m)))
                     (replicate (snd (codec_shape (codec m))) (0::real)))
         in case char_lookup (codec m) fillchar of
              None \<Rightarrow> Inl (BadInitMethodException (fillchar # '' is not in model alphabet''))
            | Some fill \<Rightarrow>
                if fill < snd (codec_shape (codec m))
                then np_reshape2 (concat (map (\<lambda>row. concat (map (\<lambda>v. v[fill := 1]) row)) vis))
                       n vis_len
                else Inl IndexError)
      else if init_method = Some train \<or> init_method = Some silhouettes then
        (case training_examples_fname of
           None \<Rightarrow> Inl AssertionError
         | Some fname \<Rightarrow>
             vectors_from_txtfile env fname (codec m) n (init_method = Some silhouettes))
      else if init_method = Some chunks \<or> init_method = Some uniform_chars then
        (if nc = 0 then Inl ValueError
         else
           let char_indices =
                 map (\<lambda>r. map (\<lambda>p. rnd_int env (r * ml + p) mod nc) [0..<ml]) [0..<n];
               masked =
                 (if init_method = Some chunks then
                    (let lengths = map (\<lambda>r. to_int8 (np_clip (rnd_length env r) 1 (real ml)))
                          [0..<n]
                     in case char_lookup (codec m) (filler (codec m)) of
                          None \<Rightarrow> Inl KeyError
                        | Some padidx \<Rightarrow>
                            Inr (map (\<lambda>(row, len). map (\<lambda>(p, c). if len \<le> int p then padidx else c)
                                                    (zip [0..<ml] row))
                                   (zip char_indices lengths)))
                  else Inr char_indices)
           in case masked of
                Inl e \<Rightarrow> Inl e
              | Inr indices \<Rightarrow>
                  (case eye_rows nc (concat indices) of
                     Inl e \<Rightarrow> Inl e
                   | Inr rows \<Rightarrow> np_reshape2 (concat rows) n vis_len))
      else Inl ValueError)"


subsection \<open>\<open>print_sample_callback\<close> and the callbacks of the sampler\<close>

text \<open>
  \<open>zip(xs, ys)\<close> where \<open>ys\<close> may be \<open>None\<close>: \<open>None\<close> is not iterable, and \<open>zip\<close> raises
  \<open>TypeError\<close> when it is called.
\<close>

definition py_zip :: "'a list \<Rightarrow> 'b list option \<Rightarrow> error + ('a \<times> 'b) list" where
  "py_zip xs ys = (case ys of None \<Rightarrow> Inl TypeError | Some ys' \<Rightarrow> Inr (zip xs ys'))"

text \<open>
  \<open>print_sample_callback(sample_strings, i, energy=None, logger=None)\<close>. \<open>format_2f\<close> is
  Python's \<open>'{:.2f}'.format\<close> on a float; the format string \<open>'{} \t {:.2f}'\<close> puts a
  space, a tab and a space between the two. The result is the text returned and the
  messages passed to \<open>logger.debug\<close> (\<open>logger\<close> says whether a logger was given).
\<close>

definition print_sample_callback ::
  "(real \<Rightarrow> string) \<Rightarrow> string list \<Rightarrow> int \<Rightarrow> real list option \<Rightarrow> bool
     \<Rightarrow> error + (string \<times> string list)" where
  "print_sample_callback format_2f sample_strings i energy logger =
     (case (if energy = None
            then (case py_zip sample_strings energy of
                    Inl e \<Rightarrow> Inl e
                  | Inr ts \<Rightarrow>
                      Inr (concat (map (\<lambda>t. fst t @ [CHR '' '', CHR 0x09, CHR '' '']
                                               @ format_2f (snd t)) ts)))
            else Inr (concat sample_strings)) of
        Inl e \<Rightarrow> Inl e
      | Inr text \<Rightarrow> Inr (text, if logger then [text] else []))"

text \<open>
  The callables that reach \<open>_sample_model\<close> as \<open>callback\<close>: the \<open>lambda: None\<close> that
  \<open>sample_model\<close> puts in place of \<open>None\<close>, which takes no argument;
  \<open>print_sample_callback\<close>, the default; and any callable of the caller, given by whether
  it raises on the strings, the iteration and the energy (\<open>None\<close> when the call passes two
  arguments).
\<close>

datatype callback =
    NoArgLambda
  | PrintSampleCallback
  | UserCallback "string list \<Rightarrow> int \<Rightarrow> real list option \<Rightarrow> error option"

text \<open>
  \<open>callback(sample_strings, i, energy)\<close> or \<open>callback(sample_strings, i)\<close>: the exception
  raised, if any. A call of \<open>lambda: None\<close> with two or three arguments raises \<open>TypeError\<close>.
\<close>

definition call_callback ::
  "(real \<Rightarrow> string) \<Rightarrow> callback \<Rightarrow> string list \<Rightarrow> int \<Rightarrow> real list option \<Rightarrow> error option" where
  "call_callback format_2f cb sample_strings i energy =
     (case cb of
        NoArgLambda \<Rightarrow> Some TypeError
      | PrintSampleCallback \<Rightarrow>
          (case print_sample_callback format_2f sample_strings i energy False of
             Inl e \<Rightarrow> Some e
           | Inr r \<Rightarrow> None)
      | UserCallback f \<Rightarrow> f sample_strings i energy)"

subsection \<open>\<open>_sample_model\<close>: the sampling loop\<close>

text \<open>
  What the loop takes from outside \<open>sampling.py\<close>: the methods of the model (they read the
  model they are called on, so they take it), the decoder of the codec (called with
  \<open>pretty=True, strict=False\<close>) and float formatting. \<open>gibbs\<close> is stochastic: it takes
  and returns the state \<open>'w\<close> of its random source.
\<close>

record 'w externals =
  gibbs :: "rbm \<Rightarrow> 'w \<Rightarrow> real list list \<Rightarrow> real \<Rightarrow> real list list \<times> 'w"
  free_energy :: "rbm \<Rightarrow> real list list \<Rightarrow> real list"
  decode :: "codec \<Rightarrow> real list \<Rightarrow> string"
  format_2f :: "real \<Rightarrow> string"

text \<open>
  The calls the loop makes, in order: \<open>Gibbs i t\<close> when iteration \<open>i\<close> calls
  \<open>model.gibbs\<close> with the temperature \<open>t\<close>, \<open>Callback i strings energy\<close> when iteration
  \<open>i\<close> calls the callback with the decoded strings and the energy passed.
\<close>

datatype event =
    Gibbs nat real
  | Callback int "string list" "real list option"

fun gibbs_calls :: "event list \<Rightarrow> (nat \<times> real) list" where
  "gibbs_calls [] = []"
| "gibbs_calls (Gibbs i t # es) = (i, t) # gibbs_calls es"
| "gibbs_calls (Callback i ss en # es) = gibbs_calls es"

fun callback_calls :: "event list \<Rightarrow> (int \<times> string list \<times> real list option) list" where
  "callback_calls [] = []"
| "callback_calls (Gibbs i t # es) = callback_calls es"
| "callback_calls (Callback i ss en # es) = (i, ss, en) # callback_calls es"

record 'w loop_state =
  vis :: "real list list"
  temp :: real
  next_sample_metaindex :: nat
  samples :: "string list list"
  trace :: "event list"
  world :: 'w

datatype 's step_result = Continue 's | Break 's | Raise error 's

text \<open>
  \<open>for i in range(k): body\<close>, over the list of the values of \<open>i\<close>: \<open>break\<close> and an
  exception both end it.
\<close>

fun for_loop :: "(nat \<Rightarrow> 's \<Rightarrow> 's step_result) \<Rightarrow> nat list \<Rightarrow> 's \<Rightarrow> error option \<times> 's" where
  "for_loop body [] s = (None, s)"
| "for_loop body (i # is) s =
     (case body i s of
        Continue s' \<Rightarrow> for_loop body is s'
      | Break s' \<Rightarrow> (None, s')
      | Raise e s' \<Rightarrow> (Some e, s'))"

text \<open>The transition and the update of the temperature that end an iteration.\<close>

definition gibbs_step ::
  "'w externals \<Rightarrow> arith \<Rightarrow> bool \<Rightarrow> rbm \<Rightarrow> real \<Rightarrow> real \<Rightarrow> nat \<Rightarrow> 'w loop_state
     \<Rightarrow> 'w loop_state" where
  "gibbs_step ext ar linear_anneal m temp_decay temp_delta i s =
     (case gibbs ext m (world s) (vis s) (temp s) of
        (v, w) \<Rightarrow>
          s\<lparr>vis := v, world := w, trace := trace s @ [Gibbs i (temp s)],
            temp := (if linear_anneal then float_add ar (temp s) temp_delta
                     else float_mul ar (temp s) temp_decay)\<rparr>)"

text \<open>The block under \<open>if i == sample_iter_indices[next_sample_metaindex]\<close>.\<close>

definition take_samples ::
  "'w externals \<Rightarrow> rbm \<Rightarrow> int list \<Rightarrow> callback \<Rightarrow> bool \<Rightarrow> nat \<Rightarrow> 'w loop_state
     \<Rightarrow> 'w loop_state step_result" where
  "take_samples ext m sample_iter_indices cb sample_energy i s =
     (let sample_strings = map (decode ext (codec m)) (vis s);
          energy = (if sample_energy then Some (free_energy ext m (vis s)) else None);
          s1 = s\<lparr>trace := trace s @ [Callback (int i) sample_strings energy]\<rparr>
      in case call_callback (format_2f ext) cb sample_strings (int i) energy of
           Some e \<Rightarrow> Raise e s1
         | None \<Rightarrow>
             (let s2 = s1\<lparr>samples := samples s1 @ [sample_strings],
                         next_sample_metaindex := next_sample_metaindex s1 + 1\<rparr>
              in if next_sample_metaindex s2 = length sample_iter_indices
                 then Break s2 else Continue s2))"

text \<open>One iteration. Indexing the list of checkpoints past its end raises.\<close>

definition loop_body ::
  "'w externals \<Rightarrow> arith \<Rightarrow> bool \<Rightarrow> rbm \<Rightarrow> int list \<Rightarrow> real \<Rightarrow> real \<Rightarrow> callback \<Rightarrow> bool
     \<Rightarrow> nat \<Rightarrow> 'w loop_state \<Rightarrow> 'w loop_state step_result" where
  "loop_body ext ar linear_anneal m sample_iter_indices temp_decay temp_delta cb sample_energy i s =
     (if \<not> next_sample_metaindex s < length sample_iter_indices then Raise IndexError s
      else
        (case (if int i = sample_iter_indices ! next_sample_metaindex s
               then take_samples ext m sample_iter_indices cb sample_energy i s
               else Continue s) of
           Continue s1 \<Rightarrow> Continue (gibbs_step ext ar linear_anneal m temp_decay temp_delta i s1)
         | Break s1 \<Rightarrow> Break s1
         | Raise e s1 \<Rightarrow> Raise e s1))"

text \<open>
  The source's \<open>_sample_model\<close> (a name cannot start with an underscore here).
  \<open>linear_anneal\<close> is the module's flag \<open>LINEAR_ANNEAL\<close>, which the source sets to 0. The
  divisions raise \<open>ZeroDivisionError\<close> on a zero divisor, before the loop. The result is
  the value returned or the exception raised, the calls made, and the state of the random
  source.
\<close>

definition private_sample_model ::
  "'w externals \<Rightarrow> arith \<Rightarrow> bool \<Rightarrow> rbm \<Rightarrow> real list list \<Rightarrow> int \<Rightarrow> int list \<Rightarrow> real \<Rightarrow> real
     \<Rightarrow> callback \<Rightarrow> bool \<Rightarrow> 'w
     \<Rightarrow> (error + real list list \<times> string list) \<times> event list \<times> 'w" where
  "private_sample_model ext ar linear_anneal m vis0 iters sample_iter_indices start_temp
       final_temp cb sample_energy w =
     (if start_temp = 0 then (Inl ZeroDivisionError, [], w)
      else if iters = 0 then (Inl ZeroDivisionError, [], w)
      else
        case float_pow ar (float_div ar final_temp start_temp)
               (float_div ar 1 (real_of_int iters)) of
          Inl e \<Rightarrow> (Inl e, [], w)
        | Inr temp_decay \<Rightarrow>
            (let temp_delta = float_div ar (float_sub ar final_temp start_temp)
                                (real_of_int iters);
                 s0 = \<lparr>vis = vis0, temp = start_temp, next_sample_metaindex = 0, samples = [],
                        trace = [], world = w\<rparr>
             in case for_loop (loop_body ext ar linear_anneal m sample_iter_indices temp_decay
                                 temp_delta cb sample_energy) [0..<nat iters] s0 of
                  (Some e, s) \<Rightarrow> (Inl e, trace s, world s)
                | (None, s) \<Rightarrow>
                    (if samples s = [] then (Inl IndexError, trace s, world s)
                     else (Inr (vis s, last (samples s)), trace s, world s))))"

text \<open>
  For the statements about the loop: the visible state, the temperature and the random
  source after \<open>k\<close> transitions from a start, each with the temperature of its turn.
\<close>

primrec after_transitions ::
  "'w externals \<Rightarrow> arith \<Rightarrow> bool \<Rightarrow> rbm \<Rightarrow> real \<Rightarrow> real \<Rightarrow> nat
     \<Rightarrow> real list list \<times> real \<times> 'w \<Rightarrow> real list list \<times> real \<times> 'w" where
  "after_transitions ext ar linear_anneal m temp_decay temp_delta 0 x = x"
| "after_transitions ext ar linear_anneal m temp_decay temp_delta (Suc k) x =
     (case after_transitions ext ar linear_anneal m temp_decay temp_delta k x of
        (v, t, w) \<Rightarrow>
          (case gibbs ext m w v t of
             (v', w') \<Rightarrow>
               (v', if linear_anneal then float_add ar t temp_delta
                    else float_mul ar t temp_decay, w')))"

text \<open>
  For the statements about the loop: the checkpoints it takes. From iteration \<open>i\<close> the
  loop waits for the first checkpoint \<open>c\<close> left; it comes to it when \<open>i \<le> c < iters\<close>, and
  then waits for the next one from iteration \<open>c + 1\<close>. A checkpoint it cannot come to is
  waited for until the iterations are exhausted, so those after it are not taken either.
  The loop makes the transitions of the iterations before the last checkpoint when it
  takes them all, and of every iteration otherwise.
\<close>

fun reached_checkpoints :: "int \<Rightarrow> int \<Rightarrow> int list \<Rightarrow> int list" where
  "reached_checkpoints i iters [] = []"
| "reached_checkpoints i iters (c # cs) =
     (if i \<le> c \<and> c < iters then c # reached_checkpoints (c + 1) iters cs else [])"

definition transitions_made :: "int \<Rightarrow> int list \<Rightarrow> nat" where
  "transitions_made iters sample_iter_indices =
     (if reached_checkpoints 0 iters sample_iter_indices = sample_iter_indices
      then nat (last sample_iter_indices) else nat iters)"

definition LINEAR_ANNEAL :: bool where
  "LINEAR_ANNEAL = False"

subsection \<open>\<open>sample_model\<close>\<close>

text \<open>An integer as the condition of an \<open>if\<close>: zero is false.\<close>

definition truthy :: "int \<Rightarrow> bool" where
  "truthy x = (x \<noteq> 0)"

text \<open>
  The function under the decorator \<open>utils.timeit\<close>, which is not in the source. \<open>callback\<close>
  and \<open>starting_vis\<close> are \<open>None\<close> or a value. Inside the scope the loop runs on the model
  with the shifted biases and leaves the model alone. The result is the value returned
  or the exception raised, and the model afterwards.
\<close>

definition sample_model ::
  "'w externals \<Rightarrow> arith \<Rightarrow> init_sources \<Rightarrow> rbm \<Rightarrow> nat \<Rightarrow> int \<Rightarrow> int list \<Rightarrow> real \<Rightarrow> real
     \<Rightarrow> callback option \<Rightarrow> VisInit option \<Rightarrow> string option \<Rightarrow> bool \<Rightarrow> real list list option
     \<Rightarrow> int \<Rightarrow> int \<Rightarrow> 'w
     \<Rightarrow> (error + real list list \<times> string list) \<times> rbm" where
  "sample_model ext ar env m n iters sample_iter_indices start_temp final_temp callback init_method
       training_examples sample_energy starting_vis min_len max_len w =
     (let cb = (case callback of None \<Rightarrow> NoArgLambda | Some f \<Rightarrow> f) in
      case (case starting_vis of
              Some v \<Rightarrow> Inr v
            | None \<Rightarrow> starting_visible_configs env init_method n m training_examples) of
        Inl e \<Rightarrow> (Inl e, m)
      | Inr v \<Rightarrow>
          (if truthy min_len \<or> truthy max_len
           then with_shrink_model ar m min_len
                  (if max_len = 0 then int (maxlen (codec m)) else max_len)
                  (\<lambda>m'. (fst (private_sample_model ext ar LINEAR_ANNEAL m' v iters
                                  sample_iter_indices start_temp final_temp cb sample_energy w),
                          m'))
           else (fst (private_sample_model ext ar LINEAR_ANNEAL m v iters sample_iter_indices
                        start_temp final_temp cb sample_energy w),
                 m)))"

subsection \<open>A small model for the examples\<close>

text \<open>
  Five positions over the alphabet \<open>a\<close>, \<open>b\<close>, \<open>c\<close> and the filler \<open>_\<close>, with twenty
  different biases. The padding biases are at 3, 7, 11, 15 and 19.
\<close>

definition example_codec :: codec where
  "example_codec = \<lparr>maxlen = 5, nchars = 4, filler = CHR ''_'',
     char_lookup = [CHR ''a'' \<mapsto> 0, CHR ''b'' \<mapsto> 1, CHR ''c'' \<mapsto> 2, CHR ''_'' \<mapsto> 3]\<rparr>"

definition example_model :: rbm where
  "example_model = \<lparr>codec = example_codec,
     intercept_visible =
       [0.5, 1, 1.5, 2, 2.5, 3, 3.5, 4, 4.5, 5, 5.5, 6, 6.5, 7, 7.5, 8, 8.5, 9, 9.5, 10]\<rparr>"


text \<open>Two bodies for a scope: both overwrite every bias; one raises, one returns.\<close>

definition raising_body :: "rbm \<Rightarrow> (error + bool) \<times> rbm" where
  "raising_body m = (Inl ValueError, m\<lparr>intercept_visible := map (\<lambda>x. x + 1) (intercept_visible m)\<rparr>)"

definition returning_body :: "rbm \<Rightarrow> (error + bool) \<times> rbm" where
  "returning_body m = (Inr True, m\<lparr>intercept_visible := map (\<lambda>x. 0) (intercept_visible m)\<rparr>)"

text \<open>
  Sources for \<open>starting_visible_configs\<close>: fixed draws, a sampler that returns its input's
  data, a loader that returns \<open>n\<close> rows of zeros. With them the \<open>chunks\<close> strategy cuts the
  first row at length 2 and the second at length 4.
\<close>

definition example_sources :: init_sources where
  "example_sources = \<lparr>rnd_int = (\<lambda>k. 7 * k + 3),
     rnd_length = (\<lambda>r. if r = 0 then 2.05 else 4.3),
     softmax_and_sample = (\<lambda>sm. concat (concat sm)),
     vectors_from_txtfile = (\<lambda>fname c n mutagen. Inr (replicate n (replicate (maxlen c * nchars c) 0)))\<rparr>"



text \<open>
  Externals for the loop: a transition that adds the temperature to every unit and counts
  its calls, an energy that sums each row, a decoder that writes \<open>a\<close> for a unit that is 0
  and \<open>b\<close> otherwise, and a formatter.
\<close>

definition example_ext :: "nat externals" where
  "example_ext = \<lparr>gibbs = (\<lambda>m w v t. (map (map (\<lambda>x. x + t)) v, Suc w)),
     free_energy = (\<lambda>m v. map sum_list v),
     decode = (\<lambda>c row. map (\<lambda>x. if x = 0 then CHR ''a'' else CHR ''b'') row),
     format_2f = (\<lambda>x. ''0.00'')\<rparr>"

text \<open>A callback of the caller that returns normally.\<close>

definition quiet_callback :: callback where
  "quiet_callback = UserCallback (\<lambda>sample_strings i energy. None)"

subsection \<open>The arithmetic of the examples\<close>

text \<open>
  IEEE doubles, without overflow: \<open>to_double x\<close> is the double nearest to \<open>x\<close>, ties to
  the even significand. \<open>binade\<close> finds the \<open>e\<close> with \<open>2 ^ e \<le> x < 2 ^ (e + 1)\<close> for a
  positive \<open>x\<close>; a double has 53 significant bits, and the smallest exponent is -1022.
\<close>

definition round_half_even :: "real \<Rightarrow> int" where
  "round_half_even x =
     (if x - of_int \<lfloor>x\<rfloor> < 1 / 2 then \<lfloor>x\<rfloor>
      else if 1 / 2 < x - of_int \<lfloor>x\<rfloor> then \<lfloor>x\<rfloor> + 1
      else if even \<lfloor>x\<rfloor> then \<lfloor>x\<rfloor> else \<lfloor>x\<rfloor> + 1)"

fun binade :: "nat \<Rightarrow> real \<Rightarrow> int \<Rightarrow> int" where
  "binade 0 x e = e"
| "binade (Suc fuel) x e =
     (if 2 \<le> x then binade fuel (x / 2) (e + 1)
      else if x < 1 then binade fuel (x * 2) (e - 1)
      else e)"

definition pow2 :: "int \<Rightarrow> real" where
  "pow2 e = (if 0 \<le> e then 2 ^ nat e else 1 / 2 ^ nat (- e))"

definition to_double :: "real \<Rightarrow> real" where
  "to_double x =
     (if x = 0 then 0
      else of_int (round_half_even (x / pow2 (max (binade 2200 \<bar>x\<bar> 0) (- 1022) - 52)))
             * pow2 (max (binade 2200 \<bar>x\<bar> 0) (- 1022) - 52))"

text \<open>
  Python's floats: each operation is the exact one, rounded. Of \<open>**\<close> only the two cases
  the examples meet are fixed: a zero base with a positive exponent gives 0.0, a base of
  1.0 gives 1.0.
\<close>

definition double_arith :: arith where
  "double_arith = \<lparr>float_add = (\<lambda>x y. to_double (x + y)),
     float_sub = (\<lambda>x y. to_double (x - y)),
     float_mul = (\<lambda>x y. to_double (x * y)),
     float_div = (\<lambda>x y. to_double (x / y)),
     float_pow = (\<lambda>b e. if b = 0 \<and> 0 < e then Inr 0 else if b = 1 then Inr 1
                          else Inr (to_double (b powr e)))\<rparr>"
section \<open>Proofs: the length constraint\<close>

lemma read_biases_ok:
  "\<forall>p\<in>set ps. nc * p + padidx < length iv \<Longrightarrow>
     read_biases iv nc padidx ps = Inr (map (\<lambda>p. iv ! (nc * p + padidx)) ps)"
  by (induction ps) auto

lemma add_biases_ok:
  "\<forall>p\<in>set ps. nc * p + padidx < length iv \<Longrightarrow>
     fst (add_biases fadd iv nc padidx v ps) = None \<and>
     length (snd (add_biases fadd iv nc padidx v ps)) = length iv"
  by (induction ps arbitrary: iv) auto

lemma add_biases_nth:
  "\<forall>p\<in>set ps. nc * p + padidx < length iv \<Longrightarrow> distinct ps \<Longrightarrow> 0 < nc \<Longrightarrow> k < length iv \<Longrightarrow>
     snd (add_biases fadd iv nc padidx v ps) ! k =
       (if k \<in> (\<lambda>p. nc * p + padidx) ` set ps then fadd (iv ! k) v else iv ! k)"
proof (induction ps arbitrary: iv)
  case Nil
  then show ?case by simp
next
  case (Cons p ps)
  let ?iv = "iv[nc * p + padidx := fadd (iv ! (nc * p + padidx)) v]"
  have rng: "\<forall>q\<in>set ps. nc * q + padidx < length ?iv" using Cons.prems by simp
  have notin: "nc * p + padidx \<notin> (\<lambda>q. nc * q + padidx) ` set ps"
    using Cons.prems by auto
  have "snd (add_biases fadd ?iv nc padidx v ps) ! k =
       (if k \<in> (\<lambda>p. nc * p + padidx) ` set ps then fadd (?iv ! k) v else ?iv ! k)"
    using Cons.IH [OF rng] Cons.prems by simp
  then show ?case using Cons.prems notin
    by (auto simp: nth_list_update)
qed

lemma write_biases_ok:
  "\<forall>p\<in>set (map fst qs). nc * p + padidx < length iv \<Longrightarrow>
     fst (write_biases iv nc padidx qs) = None \<and>
     length (snd (write_biases iv nc padidx qs)) = length iv"
  by (induction qs arbitrary: iv) auto

lemma write_biases_nth:
  "\<forall>p\<in>set (map fst qs). nc * p + padidx < length iv \<Longrightarrow> distinct (map fst qs) \<Longrightarrow> 0 < nc \<Longrightarrow>
     k < length iv \<Longrightarrow>
     snd (write_biases iv nc padidx qs) ! k =
       (case map_of (map (\<lambda>(p, b). (nc * p + padidx, b)) qs) k of None \<Rightarrow> iv ! k | Some b \<Rightarrow> b)"
proof (induction qs arbitrary: iv)
  case Nil
  then show ?case by simp
next
  case (Cons q qs)
  obtain p b where q: "q = (p, b)" by (cases q)
  let ?iv = "iv[nc * p + padidx := b]"
  have rng: "\<forall>q\<in>set (map fst qs). nc * q + padidx < length ?iv" using Cons.prems by simp
  have notin: "map_of (map (\<lambda>(p, b). (nc * p + padidx, b)) qs) (nc * p + padidx) = None"
    using Cons.prems q by (auto simp: map_of_eq_None_iff image_iff)
  show ?case using Cons.IH [OF rng] Cons.prems q notin
    by (auto simp: nth_list_update split: option.splits)
qed


lemma idx_lt: "posn < ml \<Longrightarrow> c < (nc::nat) \<Longrightarrow> nc * posn + c < ml * nc"
proof -
  assume a: "posn < ml" "c < nc"
  have "nc * posn + c < nc * posn + nc" using a by simp
  also have "\<dots> = nc * Suc posn" by simp
  also have "\<dots> \<le> nc * ml" using a by (intro mult_le_mono2) simp
  finally show ?thesis by (simp add: mult.commute)
qed

lemma idx_neq: "c < (nc::nat) \<Longrightarrow> d < nc \<Longrightarrow> c \<noteq> d \<Longrightarrow> nc * p + c \<noteq> nc * q + d"
proof
  assume a: "c < nc" "d < nc" "c \<noteq> d" and e: "nc * p + c = nc * q + d"
  from e have "(nc * p + c) mod nc = (nc * q + d) mod nc" by simp
  then show False using a by simp
qed

lemma write_biases_zip_nth:
  assumes "\<forall>p\<in>set ps. nc * p + padidx < length iv" "distinct ps" "0 < nc"
    "length ps = length bs" "i < length ps"
  shows "snd (write_biases iv nc padidx (zip ps bs)) ! (nc * (ps ! i) + padidx) = bs ! i"
proof -
  let ?qs = "zip ps bs"
  have fst_qs: "map fst ?qs = ps" using assms(4) by simp
  have keys: "map (\<lambda>(p, b). (nc * p + padidx, b)) ?qs = zip (map (\<lambda>p. nc * p + padidx) ps) bs"
    by (simp add: zip_map1)
  have dist: "distinct (map (\<lambda>p. nc * p + padidx) ps)"
    using assms(2,3) by (simp add: distinct_map inj_on_def)
  have "map_of (zip (map (\<lambda>p. nc * p + padidx) ps) bs) (map (\<lambda>p. nc * p + padidx) ps ! i) = Some (bs ! i)"
    using assms(4,5) dist by (intro map_of_zip_nth) simp_all
  then have look: "map_of (map (\<lambda>(p, b). (nc * p + padidx, b)) ?qs) (nc * (ps ! i) + padidx) = Some (bs ! i)"
    using keys assms(5) by simp
  have "nc * (ps ! i) + padidx < length iv" using assms(1,5) by simp
  then show ?thesis
    using write_biases_nth [of ?qs nc padidx iv "nc * (ps ! i) + padidx"] assms(1,2,3) fst_qs look
    by simp
qed

lemma enter_ok:
  assumes look: "char_lookup (codec (model self)) (filler (codec (model self))) = Some padidx"
    and pad: "padidx < nchars (codec (model self))"
    and len: "length (intercept_visible (model self)) =
                maxlen (codec (model self)) * nchars (codec (model self))"
    and mn: "min_length self \<le> maxlen (codec (model self))"
  shows "enter ar self =
     (None, self\<lparr>prev_biases :=
                   map (\<lambda>p. intercept_visible (model self) ! (nchars (codec (model self)) * p + padidx))
                     [0..<maxlen (codec (model self))],
                 model := (model self)\<lparr>intercept_visible :=
                   snd (add_biases (float_add ar)
                     (snd (add_biases (float_add ar) (intercept_visible (model self))
                        (nchars (codec (model self)))
                        padidx (- 1 * BIG_NUMBER) [0..<min_length self]))
                     (nchars (codec (model self))) padidx BIG_NUMBER
                     [max_length self..<maxlen (codec (model self))])\<rparr>\<rparr>)"
proof -
  let ?c = "codec (model self)" and ?iv = "intercept_visible (model self)"
  let ?nc = "nchars ?c" and ?ml = "maxlen ?c"
  have rng: "\<forall>p\<in>set [0..<?ml]. ?nc * p + padidx < length ?iv"
    using idx_lt [OF _ pad] len by simp
  have rd: "read_biases ?iv ?nc padidx [0..<?ml] = Inr (map (\<lambda>p. ?iv ! (?nc * p + padidx)) [0..<?ml])"
    by (rule read_biases_ok [OF rng])
  have rng1: "\<forall>p\<in>set [0..<min_length self]. ?nc * p + padidx < length ?iv"
    using rng mn by simp
  let ?iv1 = "snd (add_biases (float_add ar) ?iv ?nc padidx (- 1 * BIG_NUMBER) [0..<min_length self])"
  have a1: "fst (add_biases (float_add ar) ?iv ?nc padidx (- 1 * BIG_NUMBER) [0..<min_length self]) = None"
    and l1: "length ?iv1 = length ?iv"
    using add_biases_ok [OF rng1] by simp_all
  have rng2: "\<forall>p\<in>set [max_length self..<?ml]. ?nc * p + padidx < length ?iv1"
    using rng l1 by simp
  have a2: "fst (add_biases (float_add ar) ?iv1 ?nc padidx BIG_NUMBER [max_length self..<?ml]) = None"
    using add_biases_ok [OF rng2] by simp
  show ?thesis
    using look rd a1 a2
    by (simp add: enter_def Let_def split: prod.splits option.splits) (auto simp: prod_eq_iff)
qed


lemma idx_image: "0 < (nc::nat) \<Longrightarrow> nc * p + c \<in> (\<lambda>q. nc * q + c) ` A \<longleftrightarrow> p \<in> A"
  by auto

lemma idx_not_image:
  "c < (nc::nat) \<Longrightarrow> d < nc \<Longrightarrow> c \<noteq> d \<Longrightarrow> nc * p + c \<notin> (\<lambda>q. nc * q + d) ` A"
  using idx_neq by blast

lemma add_twice_pad:
  assumes pad: "padidx < nc" and len: "length iv = ml * nc" and mn: "mn \<le> ml" and p: "posn < ml"
  shows "snd (add_biases fadd (snd (add_biases fadd iv nc padidx v [0..<mn])) nc padidx w [mx..<ml])
            ! (nc * posn + padidx) =
         (if posn < mn then (if mx \<le> posn then fadd (fadd (iv ! (nc * posn + padidx)) v) w
                             else fadd (iv ! (nc * posn + padidx)) v)
          else (if mx \<le> posn then fadd (iv ! (nc * posn + padidx)) w
                else iv ! (nc * posn + padidx)))"
proof -
  have nc: "0 < nc" using pad by simp
  have k: "nc * posn + padidx < length iv" using idx_lt [OF p pad] len by simp
  have rng1: "\<forall>q\<in>set [0..<mn]. nc * q + padidx < length iv"
    using idx_lt [OF _ pad, of _ ml] len mn by simp
  let ?iv1 = "snd (add_biases fadd iv nc padidx v [0..<mn])"
  have l1: "length ?iv1 = length iv" using add_biases_ok [OF rng1] by simp
  have rng2: "\<forall>q\<in>set [mx..<ml]. nc * q + padidx < length ?iv1"
    using idx_lt [OF _ pad, of _ ml] len l1 by simp
  have s1: "?iv1 ! (nc * posn + padidx) =
      (if posn < mn then fadd (iv ! (nc * posn + padidx)) v else iv ! (nc * posn + padidx))"
    using add_biases_nth [OF rng1 _ nc k, of fadd v] idx_image [OF nc, of posn padidx "set [0..<mn]"]
    by simp
  have s2: "snd (add_biases fadd ?iv1 nc padidx w [mx..<ml]) ! (nc * posn + padidx) =
      (if mx \<le> posn then fadd (?iv1 ! (nc * posn + padidx)) w else ?iv1 ! (nc * posn + padidx))"
    using add_biases_nth [OF rng2 _ nc, of "nc * posn + padidx" fadd w] k l1 p
      idx_image [OF nc, of posn padidx "set [mx..<ml]"]
    by simp
  show ?thesis using s1 s2 by simp
qed

lemma add_twice_other:
  assumes pad: "padidx < nc" and len: "length iv = ml * nc" and mn: "mn \<le> ml" and p: "posn < ml"
    and c: "c < nc" "c \<noteq> padidx"
  shows "snd (add_biases fadd (snd (add_biases fadd iv nc padidx v [0..<mn])) nc padidx w [mx..<ml])
            ! (nc * posn + c) = iv ! (nc * posn + c)"
proof -
  have nc: "0 < nc" using pad by simp
  have k: "nc * posn + c < length iv" using idx_lt [OF p c(1)] len by simp
  have rng1: "\<forall>q\<in>set [0..<mn]. nc * q + padidx < length iv"
    using idx_lt [OF _ pad, of _ ml] len mn by simp
  let ?iv1 = "snd (add_biases fadd iv nc padidx v [0..<mn])"
  have l1: "length ?iv1 = length iv" using add_biases_ok [OF rng1] by simp
  have rng2: "\<forall>q\<in>set [mx..<ml]. nc * q + padidx < length ?iv1"
    using idx_lt [OF _ pad, of _ ml] len l1 by simp
  have s1: "?iv1 ! (nc * posn + c) = iv ! (nc * posn + c)"
    using add_biases_nth [OF rng1 _ nc k, of fadd v] idx_not_image [OF c(1) pad c(2)]
    by simp
  have s2: "snd (add_biases fadd ?iv1 nc padidx w [mx..<ml]) ! (nc * posn + c) = ?iv1 ! (nc * posn + c)"
    using add_biases_nth [OF rng2 _ nc, of "nc * posn + c" fadd w] k l1 idx_not_image [OF c(1) pad c(2)]
    by simp
  show ?thesis using s1 s2 by simp
qed

lemma add_twice_length:
  assumes pad: "padidx < nc" and len: "length iv = ml * nc" and mn: "mn \<le> ml"
  shows "length (snd (add_biases fadd (snd (add_biases fadd iv nc padidx v [0..<mn])) nc padidx w [mx..<ml]))
           = length iv"
proof -
  have rng1: "\<forall>q\<in>set [0..<mn]. nc * q + padidx < length iv"
    using idx_lt [OF _ pad, of _ ml] len mn by simp
  let ?iv1 = "snd (add_biases fadd iv nc padidx v [0..<mn])"
  have l1: "length ?iv1 = length iv" using add_biases_ok [OF rng1] by simp
  have rng2: "\<forall>q\<in>set [mx..<ml]. nc * q + padidx < length ?iv1"
    using idx_lt [OF _ pad, of _ ml] len l1 by simp
  show ?thesis using add_biases_ok [OF rng2] l1 by simp
qed

text \<open>
  Claim C3. Entering a scope whose bounds passed the assertions of \<open>__init__\<close> and have
  \<open>min_length \<le> max_length\<close>, on a well-formed model (the filler is in the alphabet at an
  index below \<open>nchars\<close>, the bias vector has \<open>maxlen * nchars\<close> entries): \<open>__enter__\<close>
  returns normally; the padding bias of a position below \<open>min_length\<close> is its old value
  with \<open>-1 * BIG_NUMBER\<close> added once, of a position from \<open>max_length\<close> on its old value
  with \<open>BIG_NUMBER\<close> added once (the additions are those of floats), of a position in
  \<open>[min_length, max_length)\<close> left as it was; no entry of another symbol changes.
\<close>

theorem enter_shifts_padding_biases:
  assumes init: "shrink_model_init m mn mx = Inr self0"
    and ord: "mn \<le> mx"
    and look: "char_lookup (codec m) (filler (codec m)) = Some padidx"
    and pad: "padidx < nchars (codec m)"
    and len: "length (intercept_visible m) = maxlen (codec m) * nchars (codec m)"
  shows "\<exists>self1. enter ar self0 = (None, self1) \<and> codec (model self1) = codec m \<and>
     length (intercept_visible (model self1)) = length (intercept_visible m) \<and>
     (\<forall>posn<maxlen (codec m).
        intercept_visible (model self1) ! (nchars (codec m) * posn + padidx) =
          (if int posn < mn
             then float_add ar (intercept_visible m ! (nchars (codec m) * posn + padidx))
                    (- 1 * BIG_NUMBER)
           else if mx \<le> int posn
             then float_add ar (intercept_visible m ! (nchars (codec m) * posn + padidx))
                    BIG_NUMBER
           else intercept_visible m ! (nchars (codec m) * posn + padidx))) \<and>
     (\<forall>posn<maxlen (codec m). \<forall>c<nchars (codec m). c \<noteq> padidx \<longrightarrow>
        intercept_visible (model self1) ! (nchars (codec m) * posn + c) =
          intercept_visible m ! (nchars (codec m) * posn + c))"
proof -
  from init have s0: "self0 = \<lparr>model = m, min_length = nat mn, max_length = nat mx, prev_biases = []\<rparr>"
    and b: "1 \<le> mx" "mx \<le> int (maxlen (codec m))" "0 \<le> mn" "mn \<le> int (maxlen (codec m))"
    by (auto simp: shrink_model_init_def split: if_splits)
  have mnl: "nat mn \<le> maxlen (codec m)" using b by simp
  note e = enter_ok [of self0 padidx ar, unfolded s0, simplified, OF look pad len mnl]
  show ?thesis
    unfolding s0
    apply (rule exI, rule conjI, rule e)
    apply (simp add: add_twice_length [OF pad len mnl] add_twice_pad [OF pad len mnl]
        add_twice_other [OF pad len mnl])
    using b ord apply auto
    done
qed

lemma exit_ok:
  assumes look: "char_lookup (codec (model self)) (filler (codec (model self))) = Some padidx"
    and pad: "padidx < nchars (codec (model self))"
    and len: "length (intercept_visible (model self)) =
                maxlen (codec (model self)) * nchars (codec (model self))"
    and lp: "length (prev_biases self) = maxlen (codec (model self))"
  shows "fst (exit self) = None"
    and "codec (model (snd (exit self))) = codec (model self)"
    and "posn < maxlen (codec (model self)) \<Longrightarrow>
           intercept_visible (model (snd (exit self))) ! (nchars (codec (model self)) * posn + padidx)
             = prev_biases self ! posn"
proof -
  let ?c = "codec (model self)" and ?iv = "intercept_visible (model self)"
  let ?nc = "nchars ?c" and ?ml = "maxlen ?c" and ?bs = "prev_biases self"
  let ?w = "write_biases ?iv ?nc padidx (zip [0..<length ?bs] ?bs)"
  have ex: "exit self = (fst ?w, self\<lparr>model := (model self)\<lparr>intercept_visible := snd ?w\<rparr>\<rparr>)"
    using look by (simp add: exit_def Let_def split: prod.splits)
  have rng: "\<forall>p\<in>set [0..<?ml]. ?nc * p + padidx < length ?iv"
    using idx_lt [OF _ pad] len by simp
  have rng': "\<forall>p\<in>set (map fst (zip [0..<length ?bs] ?bs)). ?nc * p + padidx < length ?iv"
    using rng lp by simp
  show "fst (exit self) = None" using write_biases_ok [OF rng'] ex by simp
  show "codec (model (snd (exit self))) = codec (model self)" using ex by simp
  assume p: "posn < ?ml"
  have nc: "0 < ?nc" using pad by simp
  have "snd ?w ! (?nc * ([0..<?ml] ! posn) + padidx) = ?bs ! posn"
    unfolding lp by (rule write_biases_zip_nth [OF rng _ nc]) (use lp p in simp_all)
  then show "intercept_visible (model (snd (exit self))) ! (?nc * posn + padidx) = ?bs ! posn"
    using ex p by simp
qed

text \<open>
  Claim C1. For bounds that pass the assertions of \<open>__init__\<close>, on a well-formed model and
  for every body that leaves the codec and the size of the bias vector alone (it may
  change every bias, return or raise), whatever the arithmetic of floats: the scope is
  entered, the statement's outcome is
  the body's (its value or its exception), and afterwards the padding bias of every
  position in \<open>[0, maxlen)\<close> is exactly what it was before the statement.
\<close>

theorem scope_exit_restores_padding_biases:
  assumes valid: "1 \<le> mx" "mx \<le> int (maxlen (codec m))" "0 \<le> mn" "mn \<le> int (maxlen (codec m))"
    and look: "char_lookup (codec m) (filler (codec m)) = Some padidx"
    and pad: "padidx < nchars (codec m)"
    and len: "length (intercept_visible m) = maxlen (codec m) * nchars (codec m)"
    and frame: "\<And>m'. codec (snd (body m')) = codec m' \<and>
                  length (intercept_visible (snd (body m'))) = length (intercept_visible m')"
  shows "\<exists>self0 self1.
     shrink_model_init m mn mx = Inr self0 \<and> enter ar self0 = (None, self1) \<and>
     fst (with_shrink_model ar m mn mx body) = fst (body (model self1)) \<and>
     (\<forall>posn<maxlen (codec m).
        intercept_visible (snd (with_shrink_model ar m mn mx body)) ! (nchars (codec m) * posn + padidx)
          = intercept_visible m ! (nchars (codec m) * posn + padidx))"
proof -
  let ?c = "codec m" and ?iv = "intercept_visible m"
  let ?nc = "nchars ?c" and ?ml = "maxlen ?c"
  define self0 where "self0 = \<lparr>model = m, min_length = nat mn, max_length = nat mx, prev_biases = []\<rparr>"
  have init: "shrink_model_init m mn mx = Inr self0"
    using valid by (simp add: shrink_model_init_def self0_def)
  have mnl: "min_length self0 \<le> maxlen (codec (model self0))" using valid by (simp add: self0_def)
  obtain self1 where ent: "enter ar self0 = (None, self1)"
    and c1: "codec (model self1) = ?c"
    and l1: "length (intercept_visible (model self1)) = length ?iv"
    and pb: "prev_biases self1 = map (\<lambda>p. ?iv ! (?nc * p + padidx)) [0..<?ml]"
    using enter_ok [of self0 padidx ar, OF _ _ _ mnl] look pad len
      add_twice_length [OF pad len, of "nat mn" "float_add ar" "- 1 * BIG_NUMBER" BIG_NUMBER
        "nat mx"] valid
    by (simp add: self0_def)
  obtain r m1 where bd: "body (model self1) = (r, m1)" by (cases "body (model self1)")
  have c2: "codec m1 = ?c" and l2: "length (intercept_visible m1) = length ?iv"
    using frame [of "model self1"] bd c1 l1 by simp_all
  let ?s = "self1\<lparr>model := m1\<rparr>"
  have look': "char_lookup (codec (model ?s)) (filler (codec (model ?s))) = Some padidx"
    and pad': "padidx < nchars (codec (model ?s))"
    and len': "length (intercept_visible (model ?s)) = maxlen (codec (model ?s)) * nchars (codec (model ?s))"
    and lp': "length (prev_biases ?s) = maxlen (codec (model ?s))"
    using look pad len c2 l2 pb by simp_all
  note ex = exit_ok [OF look' pad' len' lp']
  have w: "with_shrink_model ar m mn mx body = (r, model (snd (exit ?s)))"
    using init ent bd ex(1)
    by (cases "exit ?s") (simp add: with_shrink_model_def)
  have rest: "\<forall>posn<?ml. intercept_visible (snd (with_shrink_model ar m mn mx body)) ! (?nc * posn + padidx)
          = ?iv ! (?nc * posn + padidx)"
  proof (intro allI impI)
    fix posn assume p: "posn < ?ml"
    have "intercept_visible (model (snd (exit ?s))) ! (nchars (codec (model ?s)) * posn + padidx)
            = prev_biases ?s ! posn"
      by (rule ex(3)) (use p c2 in simp)
    then show "intercept_visible (snd (with_shrink_model ar m mn mx body)) ! (?nc * posn + padidx)
          = ?iv ! (?nc * posn + padidx)"
      using w c2 pb p by simp
  qed
  show ?thesis using init ent w bd rest by auto
qed

theorem scope_exit_restores_padding_biases_witness:
  "(1::int) \<le> 3 \<and> 3 \<le> int (maxlen (codec example_model)) \<and> (0::int) \<le> 2 \<and>
   2 \<le> int (maxlen (codec example_model)) \<and>
   char_lookup (codec example_model) (filler (codec example_model)) = Some 3 \<and>
   3 < nchars (codec example_model) \<and>
   length (intercept_visible example_model) =
     maxlen (codec example_model) * nchars (codec example_model) \<and>
   fst (with_shrink_model double_arith example_model 2 3 raising_body) = Inl ValueError \<and>
   fst (with_shrink_model double_arith example_model 2 3 returning_body) = Inr True \<and>
   intercept_visible (snd (with_shrink_model double_arith example_model 2 3 raising_body)) ! 3 = 2 \<and>
   intercept_visible (snd (with_shrink_model double_arith example_model 2 3 raising_body)) ! 7 = 4 \<and>
   intercept_visible (snd (with_shrink_model double_arith example_model 2 3 raising_body)) ! 11 = 6 \<and>
   intercept_visible (snd (with_shrink_model double_arith example_model 2 3 raising_body)) ! 15 = 8 \<and>
   intercept_visible (snd (with_shrink_model double_arith example_model 2 3 raising_body)) ! 19 = 10 \<and>
   intercept_visible (snd (with_shrink_model double_arith example_model 2 3 returning_body)) ! 3 = 2 \<and>
   intercept_visible (snd (with_shrink_model double_arith example_model 2 3 returning_body)) ! 19 = 10"
proof -
  have v: "(1::int) \<le> 3" "3 \<le> int (maxlen (codec example_model))" "(0::int) \<le> 2"
    "2 \<le> int (maxlen (codec example_model))"
    by (simp_all add: example_model_def example_codec_def)
  have look: "char_lookup (codec example_model) (filler (codec example_model)) = Some 3"
    and pad: "3 < nchars (codec example_model)"
    and len: "length (intercept_visible example_model) =
      maxlen (codec example_model) * nchars (codec example_model)"
    by (simp_all add: example_model_def example_codec_def)
  have f1: "\<And>m'. codec (snd (raising_body m')) = codec m' \<and>
      length (intercept_visible (snd (raising_body m'))) = length (intercept_visible m')"
    by (simp add: raising_body_def)
  have f2: "\<And>m'. codec (snd (returning_body m')) = codec m' \<and>
      length (intercept_visible (snd (returning_body m'))) = length (intercept_visible m')"
    by (simp add: returning_body_def)
  have ml: "maxlen (codec example_model) = 5" and nc: "nchars (codec example_model) = 4"
    by (simp_all add: example_model_def example_codec_def)
  have iv: "intercept_visible example_model ! 3 = 2" "intercept_visible example_model ! 7 = 4"
    "intercept_visible example_model ! 11 = 6" "intercept_visible example_model ! 15 = 8"
    "intercept_visible example_model ! 19 = 10"
    by (simp_all add: example_model_def)
  note t1 = scope_exit_restores_padding_biases [OF v look pad len f1, unfolded ml nc,
      where ar = double_arith]
  from t1 have "\<exists>s::shrink_model. fst (with_shrink_model double_arith example_model 2 3 raising_body)
                     = fst (raising_body (model s))"
    by blast
  then have r1: "fst (with_shrink_model double_arith example_model 2 3 raising_body) = Inl ValueError"
    by (simp add: raising_body_def)
  from t1 have p1: "\<forall>posn<5.
      intercept_visible (snd (with_shrink_model double_arith example_model 2 3 raising_body)) ! (4 * posn + 3)
        = intercept_visible example_model ! (4 * posn + 3)"
    by blast
  note t2 = scope_exit_restores_padding_biases [OF v look pad len f2, unfolded ml nc,
      where ar = double_arith]
  from t2 have "\<exists>s::shrink_model. fst (with_shrink_model double_arith example_model 2 3 returning_body)
                     = fst (returning_body (model s))"
    by blast
  then have r2: "fst (with_shrink_model double_arith example_model 2 3 returning_body) = Inr True"
    by (simp add: returning_body_def)
  from t2 have p2: "\<forall>posn<5.
      intercept_visible (snd (with_shrink_model double_arith example_model 2 3 returning_body)) ! (4 * posn + 3)
        = intercept_visible example_model ! (4 * posn + 3)"
    by blast
  from p1 [rule_format, of 0] p1 [rule_format, of 1] p1 [rule_format, of 2]
    p1 [rule_format, of 3] p1 [rule_format, of 4] p2 [rule_format, of 0] p2 [rule_format, of 4]
  show ?thesis using v look pad len r1 r2 iv by simp
qed

theorem enter_shifts_padding_biases_witness:
  "shrink_model_init example_model 2 3 =
     Inr \<lparr>model = example_model, min_length = 2, max_length = 3, prev_biases = []\<rparr> \<and>
   (2::int) \<le> 3 \<and>
   char_lookup (codec example_model) (filler (codec example_model)) = Some 3 \<and>
   3 < nchars (codec example_model) \<and>
   length (intercept_visible example_model) =
     maxlen (codec example_model) * nchars (codec example_model) \<and>
   fst (enter double_arith
          \<lparr>model = example_model, min_length = 2, max_length = 3, prev_biases = []\<rparr>) = None \<and>
   map ((!) (intercept_visible (model (snd (enter double_arith
          \<lparr>model = example_model, min_length = 2, max_length = 3, prev_biases = []\<rparr>)))))
       [3, 7, 11, 15, 19]
     = [float_add double_arith 2 (- 1 * BIG_NUMBER), float_add double_arith 4 (- 1 * BIG_NUMBER),
        6, float_add double_arith 8 BIG_NUMBER, float_add double_arith 10 BIG_NUMBER] \<and>
   [float_add double_arith 2 (- 1 * BIG_NUMBER), float_add double_arith 4 (- 1 * BIG_NUMBER),
        6, float_add double_arith 8 BIG_NUMBER, float_add double_arith 10 BIG_NUMBER]
     = [- 1, 1, 6, 11, 13] \<and>
   map ((!) (intercept_visible (model (snd (enter double_arith
          \<lparr>model = example_model, min_length = 2, max_length = 3, prev_biases = []\<rparr>)))))
       [0, 1, 2, 4, 5, 6]
     = [0.5, 1, 1.5, 2.5, 3, 3.5]"
proof -
  let ?s = "\<lparr>model = example_model, min_length = 2, max_length = 3, prev_biases = []\<rparr>"
  have init: "shrink_model_init example_model 2 3 = Inr ?s"
    by (simp add: shrink_model_init_def example_model_def example_codec_def)
  have ord: "(2::int) \<le> 3" by simp
  have look: "char_lookup (codec example_model) (filler (codec example_model)) = Some 3"
    and pad: "3 < nchars (codec example_model)"
    and len: "length (intercept_visible example_model) =
      maxlen (codec example_model) * nchars (codec example_model)"
    by (simp_all add: example_model_def example_codec_def)
  have ml: "maxlen (codec example_model) = 5" and nc: "nchars (codec example_model) = 4"
    by (simp_all add: example_model_def example_codec_def)
  from enter_shifts_padding_biases [OF init ord look pad len, where ar = double_arith]
  obtain self1 where e: "enter double_arith ?s = (None, self1)"
    and p: "\<forall>posn<5. intercept_visible (model self1) ! (4 * posn + 3) =
          (if int posn < 2
             then float_add double_arith (intercept_visible example_model ! (4 * posn + 3))
                    (- 1 * BIG_NUMBER)
           else if 3 \<le> int posn
             then float_add double_arith (intercept_visible example_model ! (4 * posn + 3))
                    BIG_NUMBER
           else intercept_visible example_model ! (4 * posn + 3))"
    and q: "\<forall>posn<5. \<forall>c<4. c \<noteq> 3 \<longrightarrow>
        intercept_visible (model self1) ! (4 * posn + c) =
          intercept_visible example_model ! (4 * posn + c)"
    unfolding ml nc by blast
  have iv: "intercept_visible example_model =
      [0.5, 1, 1.5, 2, 2.5, 3, 3.5, 4, 4.5, 5, 5.5, 6, 6.5, 7, 7.5, 8, 8.5, 9, 9.5, 10]"
    by (simp add: example_model_def)
  have pads: "intercept_visible (model self1) ! 3 = float_add double_arith 2 (- 1 * BIG_NUMBER)"
    "intercept_visible (model self1) ! 7 = float_add double_arith 4 (- 1 * BIG_NUMBER)"
    "intercept_visible (model self1) ! 11 = 6"
    "intercept_visible (model self1) ! 15 = float_add double_arith 8 BIG_NUMBER"
    "intercept_visible (model self1) ! 19 = float_add double_arith 10 BIG_NUMBER"
    using p [rule_format, of 0] p [rule_format, of 1] p [rule_format, of 2]
      p [rule_format, of 3] p [rule_format, of 4] by (simp_all add: iv)
  have vals: "[float_add double_arith 2 (- 1 * BIG_NUMBER),
        float_add double_arith 4 (- 1 * BIG_NUMBER),
        6, float_add double_arith 8 BIG_NUMBER, float_add double_arith 10 BIG_NUMBER]
     = [- 1, 1, 6, 11, 13]"
    by code_simp
  have o0: "intercept_visible (model self1) ! 0 = 0.5"
  proof -
    have i: "(4::nat) * 0 + 0 = 0" by simp
    have "intercept_visible (model self1) ! (4 * 0 + 0) =
      intercept_visible example_model ! (4 * 0 + 0)"
      by (rule q [rule_format]) simp_all
    moreover have "intercept_visible example_model ! (4 * 0 + 0) = 0.5"
      by (simp add: iv)
    ultimately show ?thesis unfolding i by (rule trans)
  qed
  have o1: "intercept_visible (model self1) ! 1 = 1"
  proof -
    have i: "(4::nat) * 0 + 1 = 1" by simp
    have "intercept_visible (model self1) ! (4 * 0 + 1) =
      intercept_visible example_model ! (4 * 0 + 1)"
      by (rule q [rule_format]) simp_all
    moreover have "intercept_visible example_model ! (4 * 0 + 1) = 1"
      by (simp add: iv)
    ultimately show ?thesis unfolding i by (rule trans)
  qed
  have o2: "intercept_visible (model self1) ! 2 = 1.5"
  proof -
    have i: "(4::nat) * 0 + 2 = 2" by simp
    have "intercept_visible (model self1) ! (4 * 0 + 2) =
      intercept_visible example_model ! (4 * 0 + 2)"
      by (rule q [rule_format]) simp_all
    moreover have "intercept_visible example_model ! (4 * 0 + 2) = 1.5"
      by (simp add: iv)
    ultimately show ?thesis unfolding i by (rule trans)
  qed
  have o4: "intercept_visible (model self1) ! 4 = 2.5"
  proof -
    have i: "(4::nat) * 1 + 0 = 4" by simp
    have "intercept_visible (model self1) ! (4 * 1 + 0) =
      intercept_visible example_model ! (4 * 1 + 0)"
      by (rule q [rule_format]) simp_all
    moreover have "intercept_visible example_model ! (4 * 1 + 0) = 2.5"
      by (simp add: iv)
    ultimately show ?thesis unfolding i by (rule trans)
  qed
  have o5: "intercept_visible (model self1) ! 5 = 3"
  proof -
    have i: "(4::nat) * 1 + 1 = 5" by simp
    have "intercept_visible (model self1) ! (4 * 1 + 1) =
      intercept_visible example_model ! (4 * 1 + 1)"
      by (rule q [rule_format]) simp_all
    moreover have "intercept_visible example_model ! (4 * 1 + 1) = 3"
      by (simp add: iv)
    ultimately show ?thesis unfolding i by (rule trans)
  qed
  have o6: "intercept_visible (model self1) ! 6 = 3.5"
  proof -
    have i: "(4::nat) * 1 + 2 = 6" by simp
    have "intercept_visible (model self1) ! (4 * 1 + 2) =
      intercept_visible example_model ! (4 * 1 + 2)"
      by (rule q [rule_format]) simp_all
    moreover have "intercept_visible example_model ! (4 * 1 + 2) = 3.5"
      by (simp add: iv)
    ultimately show ?thesis unfolding i by (rule trans)
  qed
  note others = o0 o1 o2 o4 o5 o6
  show ?thesis using init look pad len e pads others vals by simp
qed

section \<open>Proofs: the first visible states\<close>














text \<open>
  Claim C9. With the \<open>spaces\<close> strategy on a codec whose alphabet has no space, and with
  the \<open>padding\<close> strategy on a codec whose filler is not in its alphabet, the function raises
  \<open>BadInitMethodException\<close> with the message that names the missing symbol: the \<open>KeyError\<close>
  of the lookup is caught and replaced.
\<close>

theorem missing_fill_symbol_raises:
  "(char_lookup (codec m) CHR '' '' = None \<longrightarrow>
      starting_visible_configs env (Some spaces) n m fname =
        Inl (BadInitMethodException (CHR '' '' # '' is not in model alphabet''))) \<and>
   (char_lookup (codec m) (filler (codec m)) = None \<longrightarrow>
      starting_visible_configs env (Some padding) n m fname =
        Inl (BadInitMethodException (filler (codec m) # '' is not in model alphabet'')))"
  by (simp add: starting_visible_configs_def Let_def)























theorem missing_fill_symbol_raises_witness:
  "char_lookup (codec example_model) CHR '' '' = None \<and>
   starting_visible_configs example_sources (Some spaces) 2 example_model None =
     Inl (BadInitMethodException ''  is not in model alphabet'') \<and>
   char_lookup (codec (example_model\<lparr>codec := example_codec\<lparr>filler := CHR ''#''\<rparr>\<rparr>)) CHR ''#'' = None \<and>
   starting_visible_configs example_sources (Some padding) 2
       (example_model\<lparr>codec := example_codec\<lparr>filler := CHR ''#''\<rparr>\<rparr>) None =
     Inl (BadInitMethodException ''# is not in model alphabet'')"
proof -
  let ?m = "example_model\<lparr>codec := example_codec\<lparr>filler := CHR ''#''\<rparr>\<rparr>"
  have a: "char_lookup (codec example_model) CHR '' '' = None"
    by (simp add: example_model_def example_codec_def)
  have b: "char_lookup (codec ?m) (filler (codec ?m)) = None"
    by (simp add: example_codec_def)
  have f: "filler (codec ?m) = CHR ''#''" by simp
  from missing_fill_symbol_raises [of example_model example_sources 2 None] a
  have 1: "starting_visible_configs example_sources (Some spaces) 2 example_model None =
     Inl (BadInitMethodException ''  is not in model alphabet'')" by simp
  from missing_fill_symbol_raises [of ?m example_sources 2 None] b
  have 2: "starting_visible_configs example_sources (Some padding) 2 ?m None =
     Inl (BadInitMethodException ''# is not in model alphabet'')" unfolding f by simp
  show ?thesis using a b 1 2 unfolding f by simp
qed

section \<open>Proofs: the callbacks and the sampling loop\<close>

text \<open>
  Claim C4, against the code. \<open>print_sample_callback\<close> tests \<open>energy is None\<close> where it
  means the opposite: without energies it zips the strings with \<open>None\<close> and raises
  \<open>TypeError\<close>; with energies it returns the strings joined, and no energy is in the text.
\<close>

theorem print_sample_callback_tests_energy_the_wrong_way:
  "print_sample_callback fmt sample_strings i None logger = Inl TypeError \<and>
   print_sample_callback fmt sample_strings i (Some energy) logger =
     Inr (concat sample_strings, if logger then [concat sample_strings] else []) \<and>
   print_sample_callback (\<lambda>x. ''0.50'') [''ab'', ''cd''] 0 (Some [0.5, 0.5]) False
     = Inr (''abcd'', [])"
  by (simp add: print_sample_callback_def py_zip_def)

lemma take_samples_NoArg:
  "take_samples ext m idxs NoArgLambda se i s =
     Raise TypeError (s\<lparr>trace := trace s @ [Callback (int i) (map (decode ext (codec m)) (vis s))
        (if se then Some (free_energy ext m (vis s)) else None)]\<rparr>)"
  by (simp add: take_samples_def call_callback_def Let_def)

lemma loop_body_NoArg:
  "loop_body ext ar la m idxs d dl NoArgLambda se i s = r \<Longrightarrow>
     (case r of Continue s' \<Rightarrow> samples s' = samples s
              | Break s' \<Rightarrow> samples s' = samples s
              | Raise e s' \<Rightarrow> samples s' = samples s)"
  by (auto simp: loop_body_def take_samples_NoArg gibbs_step_def split: if_splits prod.splits)

lemma for_loop_NoArg:
  "samples (snd (for_loop (loop_body ext ar la m idxs d dl NoArgLambda se) is s)) = samples s"
proof (induction "is" arbitrary: s)
  case Nil
  then show ?case by simp
next
  case (Cons i "is")
  show ?case
    using loop_body_NoArg [of ext ar la m idxs d dl se i s, OF refl] Cons.IH
    by (cases "loop_body ext ar la m idxs d dl NoArgLambda se i s") simp_all
qed

lemma private_sample_model_NoArg:
  "\<exists>e. fst (private_sample_model ext ar la m v iters idxs st ft NoArgLambda se w) = Inl e"
proof (cases "st = 0 \<or> iters = 0")
  case True
  then show ?thesis by (auto simp: private_sample_model_def)
next
  case False
  show ?thesis
  proof (cases "float_pow ar (float_div ar ft st) (float_div ar 1 (real_of_int iters))")
    case (Inl e)
    then show ?thesis using False by (simp add: private_sample_model_def)
  next
    case (Inr d)
    let ?s0 = "\<lparr>vis = v, temp = st, next_sample_metaindex = 0, samples = [],
                 trace = [], world = w\<rparr>"
    let ?body = "loop_body ext ar la m idxs d (float_div ar (float_sub ar ft st) (real_of_int iters)) NoArgLambda se"
    obtain r s' where fl: "for_loop ?body [0..<nat iters] ?s0 = (r, s')"
      by (cases "for_loop ?body [0..<nat iters] ?s0")
    have "samples s' = []"
      using for_loop_NoArg [of ext ar la m idxs d "float_div ar (float_sub ar ft st) (real_of_int iters)" se
          "[0..<nat iters]" ?s0] fl by simp
    then show ?thesis using False Inr fl
      by (cases r) (simp_all add: private_sample_model_def)
  qed
qed

lemma with_shrink_model_Inl:
  assumes "\<And>m'. \<exists>e. fst (body m') = Inl e"
  shows "\<exists>e. fst (with_shrink_model ar m mn mx body) = Inl e"
proof (cases "shrink_model_init m mn mx")
  case (Inl e)
  then show ?thesis by (simp add: with_shrink_model_def)
next
  case (Inr self0)
  obtain r1 self1 where e: "enter ar self0 = (r1, self1)" by (cases "enter ar self0")
  show ?thesis
  proof (cases r1)
    case (Some err)
    then show ?thesis using Inr e by (simp add: with_shrink_model_def)
  next
    case None
    obtain r m1 where b: "body (model self1) = (r, m1)" by (cases "body (model self1)")
    from assms [of "model self1"] b obtain err where r: "r = Inl err" by auto
    obtain r2 self2 where x: "exit (self1\<lparr>model := m1\<rparr>) = (r2, self2)"
      by (cases "exit (self1\<lparr>model := m1\<rparr>)")
    show ?thesis using Inr e None b r x by (cases r2) (simp_all add: with_shrink_model_def)
  qed
qed

text \<open>
  Claim C5, against the code. With \<open>callback=None\<close> the callback becomes \<open>lambda: None\<close>,
  which takes no argument, so its call at the first checkpoint reached raises \<open>TypeError\<close>
  and no batch is ever recorded: whatever the other arguments, \<open>sample_model\<close> raises and
  returns nothing. On the spec's scenario (three iterations, the checkpoint at 2, the
  model of five positions and four symbols) the exception is the \<open>TypeError\<close>.
\<close>

theorem sample_model_without_callback_never_returns:
  "(\<exists>e. fst (sample_model ext ar env m n iters sample_iter_indices start_temp final_temp None
             init_method training_examples sample_energy starting_vis min_len max_len w) = Inl e) \<and>
   fst (sample_model example_ext double_arith example_sources example_model 2 3 [2] 1 1 None
          (Some zeros) None False None 0 0 0) = Inl TypeError"
proof
  show "\<exists>e. fst (sample_model ext ar env m n iters sample_iter_indices start_temp final_temp None
             init_method training_examples sample_energy starting_vis min_len max_len w) = Inl e"
  proof (cases "case starting_vis of Some v \<Rightarrow> Inr v
            | None \<Rightarrow> starting_visible_configs env init_method n m training_examples")
    case (Inl e)
    then show ?thesis by (simp add: sample_model_def)
  next
    case (Inr v)
    show ?thesis
    proof (cases "truthy min_len \<or> truthy max_len")
      case True
      have "\<exists>e. fst (with_shrink_model ar m min_len
                  (if max_len = 0 then int (maxlen (codec m)) else max_len)
                  (\<lambda>m'. (fst (private_sample_model ext ar LINEAR_ANNEAL m' v iters
                                  sample_iter_indices start_temp final_temp NoArgLambda sample_energy w),
                          m'))) = Inl e"
        by (rule with_shrink_model_Inl) (simp add: private_sample_model_NoArg)
      then show ?thesis using Inr True by (simp add: sample_model_def)
    next
      case False
      then show ?thesis using Inr private_sample_model_NoArg [of ext ar LINEAR_ANNEAL m v iters
          sample_iter_indices start_temp final_temp sample_energy w]
        by (simp add: sample_model_def)
    qed
  qed
next
  show "fst (sample_model example_ext double_arith example_sources example_model 2 3 [2] 1 1 None
          (Some zeros) None False None 0 0 0) = Inl TypeError"
    by code_simp
qed


text \<open>
  Claim C6, as the code has it. There is no check of \<open>iters\<close>. With \<open>iters = 0\<close> the
  division \<open>1 / iters\<close> of the schedule raises \<open>ZeroDivisionError\<close>; with \<open>iters < 0\<close>
  (a temperature not zero, a power that returns) the schedule is computed, the loop has
  no iteration and \<open>samples[-1]\<close> raises \<open>IndexError\<close>. In both cases nothing was called.
\<close>

theorem nonpositive_iters_not_rejected:
  "(iters = 0 \<longrightarrow>
      private_sample_model ext ar la m v iters sample_iter_indices start_temp final_temp cb
        sample_energy w = (Inl ZeroDivisionError, [], w)) \<and>
   (iters < 0 \<and> start_temp \<noteq> 0 \<and>
    float_pow ar (float_div ar final_temp start_temp) (float_div ar 1 (real_of_int iters)) = Inr temp_decay \<longrightarrow>
      private_sample_model ext ar la m v iters sample_iter_indices start_temp final_temp cb
        sample_energy w = (Inl IndexError, [], w))"
  by (simp add: private_sample_model_def)

theorem nonpositive_iters_not_rejected_witness:
  "private_sample_model example_ext double_arith False example_model [[0, 0]] 0 [0] 2 1 quiet_callback
      False 0 = (Inl ZeroDivisionError, [], 0) \<and>
   (- 1::int) < 0 \<and> (2::real) \<noteq> 0 \<and>
   float_pow double_arith (float_div double_arith 1 2)
     (float_div double_arith 1 (real_of_int (- 1))) = Inr 2 \<and>
   private_sample_model example_ext double_arith False example_model [[0, 0]] (- 1) [0] 2 1 quiet_callback
      False 0 = (Inl IndexError, [], 0)"
proof -
  have d: "float_div double_arith 1 2 = 1 / 2" "float_div double_arith 1 (real_of_int (- 1)) = - 1"
    "to_double 2 = 2"
    by code_simp+
  have p: "float_pow double_arith (float_div double_arith 1 2)
     (float_div double_arith 1 (real_of_int (- 1))) = Inr 2"
    unfolding d(1,2) by (simp add: double_arith_def powr_minus_divide d(3))
  from nonpositive_iters_not_rejected [where iters = 0 and ext = example_ext and ar = double_arith and la = False
      and m = example_model and v = "[[0, 0]]" and sample_iter_indices = "[0]"
      and start_temp = 2 and final_temp = 1 and cb = quiet_callback and sample_energy = False
      and w = 0]
  have a: "private_sample_model example_ext double_arith False example_model [[0, 0]] 0 [0] 2 1 quiet_callback
      False 0 = (Inl ZeroDivisionError, [], 0)" by simp
  from nonpositive_iters_not_rejected [where iters = "- 1" and ext = example_ext and ar = double_arith and la = False
      and m = example_model and v = "[[0, 0]]" and sample_iter_indices = "[0]"
      and start_temp = 2 and final_temp = 1 and cb = quiet_callback and sample_energy = False
      and w = 0 and temp_decay = 2] p
  have b: "private_sample_model example_ext double_arith False example_model [[0, 0]] (- 1) [0] 2 1
      quiet_callback False 0 = (Inl IndexError, [], 0)" by simp
  show ?thesis using a b p by simp
qed

theorem zero_iters_divides_by_zero_counterexample:
  "fst (private_sample_model example_ext double_arith LINEAR_ANNEAL example_model [[1, 0, 0, 0]]
          0 [0, 1] 1 1 PrintSampleCallback True 0) = Inl ZeroDivisionError \<and>
   private_sample_model example_ext double_arith LINEAR_ANNEAL example_model [[1, 0, 0, 0]]
          (- 3) [0, 1] 1 1 PrintSampleCallback True 0 = (Inl IndexError, [], 0)"
  by code_simp

lemma for_loop_no_hit:
  assumes "idxs = [] \<or> (\<forall>i\<in>set is. int i \<noteq> idxs ! 0)"
    and "next_sample_metaindex s = 0" and "samples s = []"
  shows "samples (snd (for_loop (loop_body ext ar la m idxs d dl cb se) is s)) = [] \<and>
         fst (for_loop (loop_body ext ar la m idxs d dl cb se) is s) \<in> {None, Some IndexError}"
  using assms
proof (induction "is" arbitrary: s)
  case Nil
  then show ?case by simp
next
  case (Cons i "is")
  show ?case
  proof (cases "idxs = []")
    case True
    then show ?thesis using Cons.prems by (simp add: loop_body_def)
  next
    case False
    with Cons.prems have ne: "int i \<noteq> idxs ! 0" and rest: "idxs = [] \<or> (\<forall>i\<in>set is. int i \<noteq> idxs ! 0)"
      by auto
    let ?s1 = "gibbs_step ext ar la m d dl i s"
    have lb: "loop_body ext ar la m idxs d dl cb se i s = Continue ?s1"
      using False ne Cons.prems(2) by (simp add: loop_body_def)
    have "next_sample_metaindex ?s1 = 0" "samples ?s1 = []"
      using Cons.prems(2,3) by (simp_all add: gibbs_step_def split: prod.splits)
    from Cons.IH [OF rest this] show ?thesis using lb by simp
  qed
qed

text \<open>
  Claim C10, as the code has it. When the list of checkpoints is empty, or none of them
  lies in \<open>[0, iters)\<close>, \<open>_sample_model\<close> returns no result, whatever the other
  arguments; the exception is \<open>IndexError\<close> when the schedule could be computed
  (\<open>iters\<close> and \<open>start_temp\<close> not zero, a power that returns), and the
  \<open>ZeroDivisionError\<close> of the schedule when \<open>iters = 0\<close>.
\<close>

theorem no_checkpoint_reached_never_returns:
  assumes "sample_iter_indices = [] \<or> (\<forall>x\<in>set sample_iter_indices. x < 0 \<or> iters \<le> x)"
  shows "(\<exists>e. fst (private_sample_model ext ar la m v iters sample_iter_indices start_temp
                 final_temp cb sample_energy w) = Inl e) \<and>
         (iters = 0 \<longrightarrow>
            fst (private_sample_model ext ar la m v iters sample_iter_indices start_temp
                   final_temp cb sample_energy w) = Inl ZeroDivisionError) \<and>
         (iters \<noteq> 0 \<and> start_temp \<noteq> 0 \<and>
          float_pow ar (float_div ar final_temp start_temp) (float_div ar 1 (real_of_int iters)) = Inr temp_decay \<longrightarrow>
            fst (private_sample_model ext ar la m v iters sample_iter_indices start_temp
                   final_temp cb sample_energy w) = Inl IndexError)"
proof -
  let ?r = "private_sample_model ext ar la m v iters sample_iter_indices start_temp
                 final_temp cb sample_energy w"
  let ?s0 = "\<lparr>vis = v, temp = start_temp, next_sample_metaindex = 0, samples = [],
               trace = [], world = w\<rparr>"
  have nohit: "sample_iter_indices = [] \<or>
      (\<forall>i\<in>set [0..<nat iters]. int i \<noteq> sample_iter_indices ! 0)"
  proof (cases "sample_iter_indices = []")
    case True
    then show ?thesis by simp
  next
    case False
    then have "sample_iter_indices ! 0 \<in> set sample_iter_indices" by simp
    with assms False have "sample_iter_indices ! 0 < 0 \<or> iters \<le> sample_iter_indices ! 0"
      by blast
    then show ?thesis by auto
  qed
  have main: "fst ?r = Inl IndexError"
    if ok: "iters \<noteq> 0" "start_temp \<noteq> 0"
      "float_pow ar (float_div ar final_temp start_temp) (float_div ar 1 (real_of_int iters)) = Inr dd" for dd
  proof -
    let ?body = "loop_body ext ar la m sample_iter_indices dd
        (float_div ar (float_sub ar final_temp start_temp) (real_of_int iters)) cb sample_energy"
    obtain r s' where fl: "for_loop ?body [0..<nat iters] ?s0 = (r, s')"
      by (cases "for_loop ?body [0..<nat iters] ?s0")
    from for_loop_no_hit [OF nohit, of ?s0 ext ar la m dd
        "float_div ar (float_sub ar final_temp start_temp) (real_of_int iters)" cb sample_energy] fl
    have "samples s' = []" "r = None \<or> r = Some IndexError" by simp_all
    then show ?thesis using ok fl by (auto simp: private_sample_model_def)
  qed
  have zero: "iters = 0 \<longrightarrow> fst ?r = Inl ZeroDivisionError"
    by (simp add: private_sample_model_def)
  have ex: "\<exists>e. fst ?r = Inl e"
  proof (cases "iters = 0 \<or> start_temp = 0")
    case True
    then show ?thesis by (auto simp: private_sample_model_def)
  next
    case False
    show ?thesis
    proof (cases "float_pow ar (float_div ar final_temp start_temp) (float_div ar 1 (real_of_int iters))")
      case (Inl e)
      then show ?thesis using False by (simp add: private_sample_model_def)
    next
      case (Inr dd)
      then show ?thesis using main [of dd] False by simp
    qed
  qed
  show ?thesis using ex zero main [of temp_decay] by blast
qed

theorem no_checkpoint_reached_never_returns_witness:
  "list_all (\<lambda>x. x < 0 \<or> 3 \<le> x) [5, 7::int] \<and> (3::int) \<noteq> 0 \<and> (2::real) \<noteq> 0 \<and>
   float_pow double_arith (float_div double_arith 2 2)
     (float_div double_arith 1 (real_of_int 3)) = Inr 1 \<and>
   fst (private_sample_model example_ext double_arith False example_model [[0, 0]] 3 [5, 7] 2 2 quiet_callback
          False 0) = Inl IndexError \<and>
   fst (private_sample_model example_ext double_arith False example_model [[0, 0]] 3 [] 2 2 quiet_callback
          False 0) = Inl IndexError"
proof -
  have h: "[5, 7::int] = [] \<or> (\<forall>x\<in>set [5, 7::int]. x < 0 \<or> 3 \<le> x)" by simp
  have h2: "([]::int list) = [] \<or> (\<forall>x\<in>set []. x < 0 \<or> (3::int) \<le> x)" by simp
  have p: "float_pow double_arith (float_div double_arith 2 2)
     (float_div double_arith 1 (real_of_int 3)) = Inr 1"
    by code_simp
  from no_checkpoint_reached_never_returns [OF h, where ext = example_ext and ar = double_arith and la = False
      and m = example_model and v = "[[0, 0]]" and start_temp = 2 and final_temp = 2
      and cb = quiet_callback and sample_energy = False and w = 0 and temp_decay = 1] p
  have a: "fst (private_sample_model example_ext double_arith False example_model [[0, 0]] 3 [5, 7] 2 2
      quiet_callback False 0) = Inl IndexError" by simp
  from no_checkpoint_reached_never_returns [OF h2, where ext = example_ext and ar = double_arith and la = False
      and m = example_model and v = "[[0, 0]]" and start_temp = 2 and final_temp = 2
      and cb = quiet_callback and sample_energy = False and w = 0 and temp_decay = 1] p
  have b: "fst (private_sample_model example_ext double_arith False example_model [[0, 0]] 3 [] 2 2
      quiet_callback False 0) = Inl IndexError" by simp
  show ?thesis using a b p by simp
qed

theorem no_checkpoint_zero_iters_counterexample:
  "fst (private_sample_model example_ext double_arith False example_model [[0, 0]] 0 [] 1 1
          quiet_callback False 0) = Inl ZeroDivisionError \<and>
   fst (private_sample_model example_ext double_arith False example_model [[0, 0]] 0 [] 1 1
          quiet_callback False 0) \<noteq> Inl IndexError \<and>
   fst (private_sample_model example_ext double_arith False example_model [[0, 0]] 0 [4] 1 1
          quiet_callback False 0) = Inl ZeroDivisionError"
  by (simp add: private_sample_model_def)


lemma gibbs_calls_append: "gibbs_calls (xs @ ys) = gibbs_calls xs @ gibbs_calls ys"
  by (induction xs rule: gibbs_calls.induct) auto

lemma callback_calls_append: "callback_calls (xs @ ys) = callback_calls xs @ callback_calls ys"
  by (induction xs rule: callback_calls.induct) auto

lemma loop_body_cases:
  obtains (index_error) "\<not> next_sample_metaindex s < length idxs" "loop_body ext ar la m idxs d dl cb se i s = Raise IndexError s"
  | (no_sample) "next_sample_metaindex s < length idxs"
      "int i \<noteq> idxs ! next_sample_metaindex s"
      "loop_body ext ar la m idxs d dl cb se i s = Continue (gibbs_step ext ar la m d dl i s)"
  | (callback_raises) e where "next_sample_metaindex s < length idxs"
      "int i = idxs ! next_sample_metaindex s"
      "call_callback (format_2f ext) cb (map (decode ext (codec m)) (vis s)) (int i)
         (if se then Some (free_energy ext m (vis s)) else None) = Some e"
      "loop_body ext ar la m idxs d dl cb se i s = Raise e (s\<lparr>trace := trace s @ [Callback (int i) (map (decode ext (codec m)) (vis s))
              (if se then Some (free_energy ext m (vis s)) else None)]\<rparr>)"
  | (last_sample) "next_sample_metaindex s < length idxs"
      "int i = idxs ! next_sample_metaindex s"
      "Suc (next_sample_metaindex s) = length idxs"
      "call_callback (format_2f ext) cb (map (decode ext (codec m)) (vis s)) (int i)
         (if se then Some (free_energy ext m (vis s)) else None) = None"
      "loop_body ext ar la m idxs d dl cb se i s = Break (s\<lparr>trace := trace s @ [Callback (int i) (map (decode ext (codec m)) (vis s))
              (if se then Some (free_energy ext m (vis s)) else None)],
            samples := samples s @ [map (decode ext (codec m)) (vis s)],
            next_sample_metaindex := Suc (next_sample_metaindex s)\<rparr>)"
  | (sample) "next_sample_metaindex s < length idxs"
      "int i = idxs ! next_sample_metaindex s"
      "Suc (next_sample_metaindex s) \<noteq> length idxs"
      "call_callback (format_2f ext) cb (map (decode ext (codec m)) (vis s)) (int i)
         (if se then Some (free_energy ext m (vis s)) else None) = None"
      "loop_body ext ar la m idxs d dl cb se i s = Continue (gibbs_step ext ar la m d dl i
            (s\<lparr>trace := trace s @ [Callback (int i) (map (decode ext (codec m)) (vis s))
              (if se then Some (free_energy ext m (vis s)) else None)],
            samples := samples s @ [map (decode ext (codec m)) (vis s)],
            next_sample_metaindex := Suc (next_sample_metaindex s)\<rparr>))"
proof (cases "next_sample_metaindex s < length idxs")
  case False
  then show ?thesis using index_error by (simp add: loop_body_def)
next
  case lt: True
  show ?thesis
  proof (cases "int i = idxs ! next_sample_metaindex s")
    case False
    then show ?thesis using lt no_sample by (simp add: loop_body_def)
  next
    case hit: True
    show ?thesis
    proof (cases "call_callback (format_2f ext) cb (map (decode ext (codec m)) (vis s)) (int i)
         (if se then Some (free_energy ext m (vis s)) else None)")
      case (Some e)
      then show ?thesis using lt hit callback_raises [of e]
        by (simp add: loop_body_def take_samples_def Let_def)
    next
      case None
      show ?thesis
      proof (cases "Suc (next_sample_metaindex s) = length idxs")
        case True
        then show ?thesis using lt hit None last_sample
          by (simp add: loop_body_def take_samples_def Let_def)
      next
        case False
        then show ?thesis using lt hit None sample
          by (simp add: loop_body_def take_samples_def Let_def)
      qed
    qed
  qed
qed

lemma gibbs_step_fields:
  "temp (gibbs_step ext ar la m d dl i s) =
     (if la then float_add ar (temp s) dl else float_mul ar (temp s) d)"
  "trace (gibbs_step ext ar la m d dl i s) = trace s @ [Gibbs i (temp s)]"
  "samples (gibbs_step ext ar la m d dl i s) = samples s"
  "next_sample_metaindex (gibbs_step ext ar la m d dl i s) = next_sample_metaindex s"
  "vis (gibbs_step ext ar la m d dl i s) = fst (gibbs ext m (world s) (vis s) (temp s))"
  "world (gibbs_step ext ar la m d dl i s) = snd (gibbs ext m (world s) (vis s) (temp s))"
  by (simp_all add: gibbs_step_def split: prod.splits)


lemma for_loop_linear_temps:
  fixes s :: "'w loop_state"
  assumes "gibbs_calls (trace s) = map (\<lambda>k. (k, ((\<lambda>t. float_add ar t dl) ^^ k) st)) [0..<i]"
    and "temp s = ((\<lambda>t. float_add ar t dl) ^^ i) st"
  shows "\<exists>j. gibbs_calls (trace (snd (for_loop (loop_body ext ar True m idxs d dl cb se) [i..<n] s)))
           = map (\<lambda>k. (k, ((\<lambda>t. float_add ar t dl) ^^ k) st)) [0..<j]"
  using assms
proof (induction "n - i" arbitrary: i s)
  case 0
  then show ?case by auto
next
  case (Suc k)
  then have lt: "i < n" and k: "k = n - Suc i" by simp_all
  have up: "[i..<n] = i # [Suc i..<n]" using lt by (simp add: upt_rec)
  let ?body = "loop_body ext ar True m idxs d dl cb se"
  let ?f = "\<lambda>k. (k, ((\<lambda>t. float_add ar t dl) ^^ k) st)"
  have step: "\<And>s1::'w loop_state.
      gibbs_calls (trace s1) = gibbs_calls (trace s) \<Longrightarrow> temp s1 = temp s \<Longrightarrow>
      \<exists>j. gibbs_calls (trace (snd (for_loop ?body [Suc i..<n] (gibbs_step ext ar True m d dl i s1))))
           = map ?f [0..<j]"
  proof -
    fix s1 :: "'w loop_state"
    assume a: "gibbs_calls (trace s1) = gibbs_calls (trace s)" "temp s1 = temp s"
    show "\<exists>j. gibbs_calls (trace (snd (for_loop ?body [Suc i..<n] (gibbs_step ext ar True m d dl i s1))))
           = map ?f [0..<j]"
    proof (rule Suc.hyps(1) [OF k])
      show "gibbs_calls (trace (gibbs_step ext ar True m d dl i s1)) = map ?f [0..<Suc i]"
        using a Suc.prems by (simp add: gibbs_step_fields gibbs_calls_append)
      show "temp (gibbs_step ext ar True m d dl i s1) = ((\<lambda>t. float_add ar t dl) ^^ Suc i) st"
        using a Suc.prems by (simp add: gibbs_step_fields)
    qed
  qed
  show ?case
  proof (cases rule: loop_body_cases [where ext = ext and ar = ar and la = True and m = m
      and idxs = idxs and d = d and dl = dl and cb = cb and se = se and i = i and s = s])
    case index_error
    then show ?thesis using up Suc.prems by auto
  next
    case no_sample
    then show ?thesis using up step [of s] by simp
  next
    case (callback_raises e)
    then show ?thesis using up Suc.prems by (auto simp: gibbs_calls_append)
  next
    case last_sample
    then show ?thesis using up Suc.prems by (auto simp: gibbs_calls_append)
  next
    case sample
    then show ?thesis using up
        step [of "s\<lparr>trace := trace s @ [Callback (int i) (map (decode ext (codec m)) (vis s))
              (if se then Some (free_energy ext m (vis s)) else None)],
            samples := samples s @ [map (decode ext (codec m)) (vis s)],
            next_sample_metaindex := Suc (next_sample_metaindex s)\<rparr>"]
      by (simp add: gibbs_calls_append)
  qed
qed

lemma funpow_fixed: "f x = x \<Longrightarrow> (f ^^ k) x = x"
  by (induction k) simp_all

text \<open>
  Claim C8, as the code has it. Under the linear policy (\<open>LINEAR_ANNEAL\<close> set) the calls of
  \<open>model.gibbs\<close> are those of the iterations \<open>0, 1, 2, ...\<close> in order, and the temperature
  of the call of iteration \<open>i\<close> is what \<open>i\<close> float additions of
  \<open>temp_delta = (final_temp - start_temp) / iters\<close> make of \<open>start_temp\<close>, each one rounded:
  the sum is accumulated, and the product \<open>i * temp_delta\<close> is never formed. When
  \<open>final_temp\<close> is \<open>start_temp\<close> and the arithmetic is exact on zero (\<open>x - x\<close> is 0,
  \<open>0 / iters\<close> is 0, \<open>x + 0\<close> is \<open>x\<close>, as for floats), every call has the temperature
  \<open>start_temp\<close>.
\<close>

theorem linear_anneal_temperatures_accumulate:
  "gibbs_calls (fst (snd (private_sample_model ext ar True m v iters sample_iter_indices
       start_temp final_temp cb sample_energy w))) =
     map (\<lambda>i. (i, ((\<lambda>t. float_add ar t
                        (float_div ar (float_sub ar final_temp start_temp) (real_of_int iters))) ^^ i)
                    start_temp))
       [0..<length (gibbs_calls (fst (snd (private_sample_model ext ar True m v iters
           sample_iter_indices start_temp final_temp cb sample_energy w))))] \<and>
   (final_temp = start_temp \<and> float_sub ar start_temp start_temp = 0 \<and>
    float_div ar 0 (real_of_int iters) = 0 \<and> float_add ar start_temp 0 = start_temp \<longrightarrow>
      list_all (\<lambda>c. snd c = start_temp)
        (gibbs_calls (fst (snd (private_sample_model ext ar True m v iters sample_iter_indices
           start_temp final_temp cb sample_energy w)))))"
proof -
  let ?tr = "fst (snd (private_sample_model ext ar True m v iters sample_iter_indices
       start_temp final_temp cb sample_energy w))"
  let ?dl = "float_div ar (float_sub ar final_temp start_temp) (real_of_int iters)"
  let ?f = "\<lambda>k. (k, ((\<lambda>t. float_add ar t ?dl) ^^ k) start_temp)"
  let ?s0 = "\<lparr>vis = v, temp = start_temp, next_sample_metaindex = 0, samples = [],
               trace = [], world = w\<rparr>"
  have "\<exists>j. gibbs_calls ?tr = map ?f [0..<j]"
  proof (cases "start_temp = 0 \<or> iters = 0")
    case True
    then have "?tr = []" by (auto simp: private_sample_model_def)
    then show ?thesis by auto
  next
    case False
    show ?thesis
    proof (cases "float_pow ar (float_div ar final_temp start_temp)
                    (float_div ar 1 (real_of_int iters))")
      case (Inl e)
      then have "?tr = []" using False by (simp add: private_sample_model_def)
      then show ?thesis by auto
    next
      case (Inr d)
      let ?fl = "for_loop (loop_body ext ar True m sample_iter_indices d ?dl cb sample_energy)
                   [0..<nat iters] ?s0"
      have "?tr = trace (snd ?fl)"
        using False Inr
        by (cases ?fl; cases "fst ?fl") (auto simp: private_sample_model_def Let_def)
      moreover have "\<exists>j. gibbs_calls (trace (snd ?fl)) = map ?f [0..<j]"
        by (rule for_loop_linear_temps) simp_all
      ultimately show ?thesis by simp
    qed
  qed
  then obtain j where j: "gibbs_calls ?tr = map ?f [0..<j]" by blast
  then have "length (gibbs_calls ?tr) = j" by simp
  with j have 1: "gibbs_calls ?tr = map ?f [0..<length (gibbs_calls ?tr)]" by simp
  have 2: "list_all (\<lambda>c. snd c = start_temp) (gibbs_calls ?tr)"
    if h: "final_temp = start_temp" "float_sub ar start_temp start_temp = 0"
      "float_div ar 0 (real_of_int iters) = 0" "float_add ar start_temp 0 = start_temp"
  proof -
    have "float_add ar start_temp ?dl = start_temp" using h by simp
    then have "\<And>k. ((\<lambda>t. float_add ar t ?dl) ^^ k) start_temp = start_temp"
      by (rule funpow_fixed)
    then show ?thesis unfolding j by (simp add: list_all_iff)
  qed
  show ?thesis using 1 2 by blast
qed

theorem linear_anneal_temperatures_accumulate_witness:
  "gibbs_calls (fst (snd (private_sample_model example_ext double_arith True example_model [[0, 0]]
       10 [4] 1 0 quiet_callback False 0))) =
     [(0, 1), (1, 8106479329266893 / 9007199254740992),
      (2, 3602879701896397 / 4503599627370496), (3, 6305039478318695 / 9007199254740992)] \<and>
   ((1 / 4 :: real) = 1 / 4 \<and> float_sub double_arith (1 / 4) (1 / 4) = 0 \<and>
    float_div double_arith 0 (real_of_int 10) = 0 \<and> float_add double_arith (1 / 4) 0 = 1 / 4) \<and>
   gibbs_calls (fst (snd (private_sample_model example_ext double_arith True example_model [[0, 0]]
       10 [3] (1 / 4) (1 / 4) quiet_callback False 0))) = [(0, 1 / 4), (1, 1 / 4), (2, 1 / 4)] \<and>
   list_all (\<lambda>c. snd c = 1 / 4)
     (gibbs_calls (fst (snd (private_sample_model example_ext double_arith True example_model [[0, 0]]
       10 [3] (1 / 4) (1 / 4) quiet_callback False 0))))"
proof -
  let ?tr1 = "fst (snd (private_sample_model example_ext double_arith True example_model [[0, 0]]
       10 [4] 1 0 quiet_callback False 0))"
  let ?tr2 = "fst (snd (private_sample_model example_ext double_arith True example_model [[0, 0]]
       10 [3] (1 / 4) (1 / 4) quiet_callback False 0))"
  have l1: "length (gibbs_calls ?tr1) = 4" by code_simp
  have l2: "length (gibbs_calls ?tr2) = 3" by code_simp
  have h: "(1 / 4 :: real) = 1 / 4 \<and> float_sub double_arith (1 / 4) (1 / 4) = 0 \<and>
    float_div double_arith 0 (real_of_int 10) = 0 \<and> float_add double_arith (1 / 4) 0 = 1 / 4"
    by code_simp
  have e1: "map (\<lambda>i. (i, ((\<lambda>t. float_add double_arith t
                        (float_div double_arith (float_sub double_arith 0 1) (real_of_int 10))) ^^ i)
                    1)) [0..<4] =
     [(0, 1), (1, 8106479329266893 / 9007199254740992),
      (2, 3602879701896397 / 4503599627370496), (3, 6305039478318695 / 9007199254740992)]"
    by code_simp
  have e2: "map (\<lambda>i. (i, ((\<lambda>t. float_add double_arith t
                        (float_div double_arith (float_sub double_arith (1 / 4) (1 / 4))
                           (real_of_int 10))) ^^ i)
                    (1 / 4))) [0..<3] = [(0, 1 / 4), (1, 1 / 4), (2, 1 / 4)]"
    by code_simp
  note t1 = linear_anneal_temperatures_accumulate [where ext = example_ext and ar = double_arith
      and m = example_model and v = "[[0, 0]]" and iters = 10 and sample_iter_indices = "[4]"
      and start_temp = 1 and final_temp = 0 and cb = quiet_callback and sample_energy = False
      and w = 0]
  note t2 = linear_anneal_temperatures_accumulate [where ext = example_ext and ar = double_arith
      and m = example_model and v = "[[0, 0]]" and iters = 10 and sample_iter_indices = "[3]"
      and start_temp = "1 / 4" and final_temp = "1 / 4" and cb = quiet_callback
      and sample_energy = False and w = 0]
  have a: "gibbs_calls ?tr1 = [(0, 1), (1, 8106479329266893 / 9007199254740992),
      (2, 3602879701896397 / 4503599627370496), (3, 6305039478318695 / 9007199254740992)]"
    using t1 [THEN conjunct1] unfolding l1 e1 .
  have b: "gibbs_calls ?tr2 = [(0, 1 / 4), (1, 1 / 4), (2, 1 / 4)]"
    using t2 [THEN conjunct1] unfolding l2 e2 .
  have c: "list_all (\<lambda>c. snd c = 1 / 4) (gibbs_calls ?tr2)"
    using t2 [THEN conjunct2] h by blast
  show ?thesis using a b c h by blast
qed

theorem accumulated_temperature_not_closed_form_counterexample:
  "gibbs_calls (fst (snd (private_sample_model example_ext double_arith True example_model [[0, 0]]
       10 [4] 1 0 quiet_callback False 0))) =
     [(0, 1), (1, 8106479329266893 / 9007199254740992),
      (2, 3602879701896397 / 4503599627370496), (3, 6305039478318695 / 9007199254740992)] \<and>
   (6305039478318695 / 9007199254740992 :: real) \<noteq> 1 + 3 * ((0 - 1) / 10) \<and>
   (6305039478318695 / 9007199254740992 :: real) \<noteq>
     float_add double_arith 1
       (float_mul double_arith 3 (float_div double_arith (float_sub double_arith 0 1) 10)) \<and>
   float_add double_arith 1
       (float_mul double_arith 3 (float_div double_arith (float_sub double_arith 0 1) 10)) =
     3152519739159347 / 4503599627370496"
  by code_simp


lemma reached_checkpoints_skip:
  "int i \<noteq> c \<Longrightarrow>
     reached_checkpoints (int i) n (c # cs) = reached_checkpoints (int (Suc i)) n (c # cs)"
  by auto

lemma for_loop_checkpoints:
  fixes s :: "'w loop_state"
  assumes cbk: "\<And>ss k v'. call_callback (format_2f ext) cb ss k
                  (if se then Some (free_energy ext m v') else None) = None"
    and st: "(vis s, temp s, world s) = after_transitions ext ar la m d dl i x0"
    and j: "next_sample_metaindex s = j" "j < length idxs"
    and sm: "samples s = map (\<lambda>c. map (decode ext (codec m))
                 (fst (after_transitions ext ar la m d dl (nat c) x0))) (take j idxs)"
    and cc: "callback_calls (trace s) =
               map (\<lambda>c. (c, map (decode ext (codec m)) (fst (after_transitions ext ar la m d dl (nat c) x0)),
                      if se then Some (free_energy ext m (fst (after_transitions ext ar la m d dl (nat c) x0)))
                      else None)) (take j idxs)"
    and gc: "map fst (gibbs_calls (trace s)) = [0..<i]"
    and le: "i \<le> n"
    and R: "R = take j idxs @ reached_checkpoints (int i) (int n) (drop j idxs)"
  shows "\<exists>s'. for_loop (loop_body ext ar la m idxs d dl cb se) [i..<n] s = (None, s') \<and>
           vis s' = fst (after_transitions ext ar la m d dl
                           (if R = idxs then nat (last idxs) else n) x0) \<and>
           world s' = snd (snd (after_transitions ext ar la m d dl
                           (if R = idxs then nat (last idxs) else n) x0)) \<and>
           samples s' = map (\<lambda>c. map (decode ext (codec m))
                 (fst (after_transitions ext ar la m d dl (nat c) x0))) R \<and>
           callback_calls (trace s') =
               map (\<lambda>c. (c, map (decode ext (codec m)) (fst (after_transitions ext ar la m d dl (nat c) x0)),
                      if se then Some (free_energy ext m (fst (after_transitions ext ar la m d dl (nat c) x0)))
                      else None)) R \<and>
           map fst (gibbs_calls (trace s')) = [0..<(if R = idxs then nat (last idxs) else n)]"
  using st j sm cc gc le R
proof (induction "n - i" arbitrary: i j s)
  case 0
  note st = "0.prems"(1) and j = "0.prems"(2,3) and sm = "0.prems"(4) and cc = "0.prems"(5)
    and gc = "0.prems"(6) and le = "0.prems"(7) and R = "0.prems"(8)
  have i: "i = n" using "0.hyps" le by simp
  have dr: "drop j idxs = idxs ! j # drop (Suc j) idxs"
    using j(2) by (simp add: Cons_nth_drop_Suc)
  have R': "R = take j idxs" unfolding R dr i by simp
  have "length R \<noteq> length idxs" unfolding R' using j(2) by simp
  then have ne: "R \<noteq> idxs" by auto
  have vs: "vis s = fst (after_transitions ext ar la m d dl n x0)"
    and ws: "world s = snd (snd (after_transitions ext ar la m d dl n x0))"
    using st unfolding i by (metis fst_conv snd_conv)+
  show ?case using ne vs ws sm cc gc unfolding R' [symmetric] i by simp
next
  case (Suc k)
  let ?chain = "\<lambda>k. after_transitions ext ar la m d dl k x0"
  let ?strs = "\<lambda>c. map (decode ext (codec m)) (fst (?chain (nat c)))"
  let ?rec = "\<lambda>c. (c, ?strs c, if se then Some (free_energy ext m (fst (?chain (nat c)))) else None)"
  let ?body = "loop_body ext ar la m idxs d dl cb se"
  let ?K = "if R = idxs then nat (last idxs) else n"
  note st = Suc.prems(1) and j = Suc.prems(2,3) and sm = Suc.prems(4) and cc = Suc.prems(5)
    and gc = Suc.prems(6) and le = Suc.prems(7) and R = Suc.prems(8)
  have lt: "i < n" using Suc.hyps(2) by simp
  have k: "k = n - Suc i" using Suc.hyps(2) by simp
  have le': "Suc i \<le> n" using lt by simp
  have up: "[i..<n] = i # [Suc i..<n]" using lt by (simp add: upt_rec)
  have dr: "drop j idxs = idxs ! j # drop (Suc j) idxs"
    using j(2) by (simp add: Cons_nth_drop_Suc)
  have vs: "vis s = fst (?chain i)" and ws: "world s = snd (snd (?chain i))"
    and ts: "temp s = fst (snd (?chain i))"
    using st by (metis fst_conv snd_conv)+
  have chain_Suc: "\<And>s1::'w loop_state. vis s1 = vis s \<Longrightarrow> temp s1 = temp s \<Longrightarrow> world s1 = world s \<Longrightarrow>
      (vis (gibbs_step ext ar la m d dl i s1), temp (gibbs_step ext ar la m d dl i s1),
       world (gibbs_step ext ar la m d dl i s1)) = ?chain (Suc i)"
    using st [symmetric] by (simp add: gibbs_step_def split: prod.splits)
  let ?en = "if se then Some (free_energy ext m (vis s)) else None"
  let ?s2 = "s\<lparr>trace := trace s @ [Callback (int i) (map (decode ext (codec m)) (vis s)) ?en],
            samples := samples s @ [map (decode ext (codec m)) (vis s)],
            next_sample_metaindex := Suc (next_sample_metaindex s)\<rparr>"
  have tk: "take (Suc j) idxs = take j idxs @ [idxs ! j]"
    using j(2) by (simp add: take_Suc_conv_app_nth)
  show ?case
  proof (cases rule: loop_body_cases [where ext = ext and ar = ar and la = la and m = m
      and idxs = idxs and d = d and dl = dl and cb = cb and se = se and i = i and s = s])
    case index_error
    then show ?thesis using j by simp
  next
    case no_sample
    let ?s1 = "gibbs_step ext ar la m d dl i s"
    have ne: "int i \<noteq> idxs ! j" using no_sample(2) j by simp
    have R1: "R = take j idxs @ reached_checkpoints (int (Suc i)) (int n) (drop j idxs)"
      unfolding R dr reached_checkpoints_skip [OF ne] ..
    have "\<exists>s'. for_loop ?body [Suc i..<n] ?s1 = (None, s') \<and>
           vis s' = fst (?chain ?K) \<and> world s' = snd (snd (?chain ?K)) \<and>
           samples s' = map ?strs R \<and> callback_calls (trace s') = map ?rec R \<and>
           map fst (gibbs_calls (trace s')) = [0..<?K]"
    proof (rule Suc.hyps(1) [OF k, where j = j])
      show "(vis ?s1, temp ?s1, world ?s1) = ?chain (Suc i)" by (rule chain_Suc) simp_all
      show "next_sample_metaindex ?s1 = j" using j by (simp add: gibbs_step_fields)
      show "j < length idxs" by (rule j(2))
      show "samples ?s1 = map ?strs (take j idxs)" using sm by (simp add: gibbs_step_fields)
      show "callback_calls (trace ?s1) = map ?rec (take j idxs)"
        using cc by (simp add: gibbs_step_fields callback_calls_append)
      show "map fst (gibbs_calls (trace ?s1)) = [0..<Suc i]"
        using gc by (simp add: gibbs_step_fields gibbs_calls_append)
      show "Suc i \<le> n" by (rule le')
      show "R = take j idxs @ reached_checkpoints (int (Suc i)) (int n) (drop j idxs)"
        by (rule R1)
    qed
    then show ?thesis using up no_sample(3) by simp
  next
    case (callback_raises e)
    then show ?thesis
      using cbk [of "map (decode ext (codec m)) (vis s)" "int i" "vis s"] by simp
  next
    case last_sample
    have ne: "idxs \<noteq> []" using j(2) by auto
    have "j = length idxs - 1" using last_sample(3) j by simp
    then have il: "idxs ! j = last idxs" by (simp add: last_conv_nth [OF ne])
    have ni: "nat (last idxs) = i" using last_sample(2) j il by simp
    have full: "take (Suc j) idxs = idxs" using last_sample(3) j by simp
    have nj: "nat (idxs ! j) = i" using il ni by simp
    have ii: "int i = idxs ! j" using last_sample(2) j by simp
    have dn: "drop (Suc j) idxs = []" using last_sample(3) j by simp
    have "R = take j idxs @ [idxs ! j]"
      unfolding R dr dn using ii lt by simp
    then have Ri: "R = idxs" using tk full by simp
    have m1: "map ?strs idxs = map ?strs (take j idxs) @ [?strs (idxs ! j)]"
      and m2: "map ?rec idxs = map ?rec (take j idxs) @ [?rec (idxs ! j)]"
      using arg_cong [OF tk, of "map ?strs"] arg_cong [OF tk, of "map ?rec"]
      unfolding full by simp_all
    have a: "samples ?s2 = map ?strs idxs"
      unfolding m1 using sm vs nj by simp
    have b: "callback_calls (trace ?s2) = map ?rec idxs"
      unfolding m2 using cc vs nj ii by (simp add: callback_calls_append)
    have c: "map fst (gibbs_calls (trace ?s2)) = [0..<nat (last idxs)]"
      using gc ni by (simp add: gibbs_calls_append)
    show ?thesis unfolding Ri using up last_sample(5) a b c vs ws ni by simp
  next
    case sample
    let ?s3 = "gibbs_step ext ar la m d dl i ?s2"
    have sj: "Suc j < length idxs" using sample(3) j by simp
    have ii: "int i = idxs ! j" using sample(2) j by simp
    have nj: "nat (idxs ! j) = i" using ii by simp
    have i1: "idxs ! j + 1 = int (Suc i)" using ii by simp
    have "R = take j idxs @
        (idxs ! j # reached_checkpoints (idxs ! j + 1) (int n) (drop (Suc j) idxs))"
      unfolding R dr using ii lt by simp
    then have R1: "R = take (Suc j) idxs @
        reached_checkpoints (int (Suc i)) (int n) (drop (Suc j) idxs)"
      unfolding tk i1 by simp
    have "\<exists>s'. for_loop ?body [Suc i..<n] ?s3 = (None, s') \<and>
           vis s' = fst (?chain ?K) \<and> world s' = snd (snd (?chain ?K)) \<and>
           samples s' = map ?strs R \<and> callback_calls (trace s') = map ?rec R \<and>
           map fst (gibbs_calls (trace s')) = [0..<?K]"
    proof (rule Suc.hyps(1) [OF k, where j = "Suc j"])
      show "(vis ?s3, temp ?s3, world ?s3) = ?chain (Suc i)" by (rule chain_Suc) simp_all
      show "next_sample_metaindex ?s3 = Suc j" using j by (simp add: gibbs_step_fields)
      show "Suc j < length idxs" by (rule sj)
      show "samples ?s3 = map ?strs (take (Suc j) idxs)"
        using sm vs nj unfolding tk by (simp add: gibbs_step_fields)
      show "callback_calls (trace ?s3) = map ?rec (take (Suc j) idxs)"
        using cc vs nj ii unfolding tk by (simp add: gibbs_step_fields callback_calls_append)
      show "map fst (gibbs_calls (trace ?s3)) = [0..<Suc i]"
        using gc by (simp add: gibbs_step_fields gibbs_calls_append)
      show "Suc i \<le> n" by (rule le')
      show "R = take (Suc j) idxs @
          reached_checkpoints (int (Suc i)) (int n) (drop (Suc j) idxs)"
        by (rule R1)
    qed
    then show ?thesis using up sample(5) by simp
  qed
qed


text \<open>
  Claim C2. For a schedule that can be computed, a first checkpoint within \<open>[0, iters)\<close>
  and a callback that returns when called as the loop calls it (with the energy or
  without, as \<open>sample_energy\<close> says): the callback is called once per checkpoint taken
  \<open>c\<close>, in order, with the decoding of the state after \<open>c\<close> transitions (and its energy
  when asked). When the last checkpoint of the list is taken the loop ends there, so
  the transitions are those of the iterations before it and none is applied at it;
  otherwise every iteration applies its transition. The function returns the state
  after these transitions and the batch of the last checkpoint taken: the decoding of
  the returned state in the first case, an earlier batch when the iterations are
  exhausted.
\<close>

theorem sample_loop_records_checkpoints_and_returns_last:
  assumes sched: "start_temp \<noteq> 0"
      "float_pow ar (float_div ar final_temp start_temp) (float_div ar 1 (real_of_int iters))
         = Inr temp_decay"
    and reach: "reached_checkpoints 0 iters sample_iter_indices \<noteq> []"
    and cbk: "\<And>ss k v'. call_callback (format_2f ext) cb ss k
                  (if sample_energy then Some (free_energy ext m v') else None) = None"
  shows "fst (private_sample_model ext ar la m v iters sample_iter_indices start_temp final_temp
               cb sample_energy w) =
           Inr (fst (after_transitions ext ar la m temp_decay
                       (float_div ar (float_sub ar final_temp start_temp) (real_of_int iters))
                       (transitions_made iters sample_iter_indices) (v, start_temp, w)),
                map (decode ext (codec m))
                  (fst (after_transitions ext ar la m temp_decay
                          (float_div ar (float_sub ar final_temp start_temp) (real_of_int iters))
                          (nat (last (reached_checkpoints 0 iters sample_iter_indices)))
                          (v, start_temp, w)))) \<and>
         callback_calls (fst (snd (private_sample_model ext ar la m v iters sample_iter_indices
               start_temp final_temp cb sample_energy w))) =
           map (\<lambda>c. (c,
                  map (decode ext (codec m))
                    (fst (after_transitions ext ar la m temp_decay
                            (float_div ar (float_sub ar final_temp start_temp) (real_of_int iters))
                            (nat c) (v, start_temp, w))),
                  if sample_energy
                  then Some (free_energy ext m
                    (fst (after_transitions ext ar la m temp_decay
                            (float_div ar (float_sub ar final_temp start_temp) (real_of_int iters))
                            (nat c) (v, start_temp, w))))
                  else None))
             (reached_checkpoints 0 iters sample_iter_indices) \<and>
         map fst (gibbs_calls (fst (snd (private_sample_model ext ar la m v iters
               sample_iter_indices start_temp final_temp cb sample_energy w)))) =
           [0..<transitions_made iters sample_iter_indices] \<and>
         snd (snd (private_sample_model ext ar la m v iters sample_iter_indices start_temp
               final_temp cb sample_energy w)) =
           snd (snd (after_transitions ext ar la m temp_decay
                       (float_div ar (float_sub ar final_temp start_temp) (real_of_int iters))
                       (transitions_made iters sample_iter_indices) (v, start_temp, w)))"
proof -
  let ?dl = "float_div ar (float_sub ar final_temp start_temp) (real_of_int iters)"
  let ?s0 = "\<lparr>vis = v, temp = start_temp, next_sample_metaindex = 0, samples = [],
               trace = [], world = w\<rparr>"
  let ?body = "loop_body ext ar la m sample_iter_indices temp_decay ?dl cb sample_energy"
  let ?chain = "\<lambda>k. after_transitions ext ar la m temp_decay ?dl k (v, start_temp, w)"
  let ?strs = "\<lambda>c. map (decode ext (codec m)) (fst (?chain (nat c)))"
  let ?rec = "\<lambda>c. (c, ?strs c,
      if sample_energy then Some (free_energy ext m (fst (?chain (nat c)))) else None)"
  let ?R = "reached_checkpoints 0 iters sample_iter_indices"
  let ?K = "if ?R = sample_iter_indices then nat (last sample_iter_indices) else nat iters"
  have ne: "sample_iter_indices \<noteq> []" using reach by auto
  have pos: "0 < iters" using reach by (cases sample_iter_indices) (auto split: if_splits)
  have it: "int (nat iters) = iters" using pos by simp
  have K: "transitions_made iters sample_iter_indices = ?K"
    by (simp add: transitions_made_def)
  have "\<exists>s'. for_loop ?body [0..<nat iters] ?s0 = (None, s') \<and>
           vis s' = fst (?chain ?K) \<and> world s' = snd (snd (?chain ?K)) \<and>
           samples s' = map ?strs ?R \<and> callback_calls (trace s') = map ?rec ?R \<and>
           map fst (gibbs_calls (trace s')) = [0..<?K]"
    by (rule for_loop_checkpoints [OF cbk, where j = 0 and i = 0]) (use ne it in simp_all)
  then obtain s' where fl: "for_loop ?body [0..<nat iters] ?s0 = (None, s')"
    and vs: "vis s' = fst (?chain (transitions_made iters sample_iter_indices))"
    and ws: "world s' = snd (snd (?chain (transitions_made iters sample_iter_indices)))"
    and sm: "samples s' = map ?strs ?R"
    and cc: "callback_calls (trace s') = map ?rec ?R"
    and gc: "map fst (gibbs_calls (trace s')) = [0..<transitions_made iters sample_iter_indices]"
    unfolding K [symmetric] by blast
  have sne: "samples s' \<noteq> []" using sm reach by simp
  have ls: "last (samples s') = ?strs (last ?R)"
    unfolding sm using reach by (simp add: last_map)
  have r: "private_sample_model ext ar la m v iters sample_iter_indices start_temp final_temp cb
               sample_energy w = (Inr (vis s', last (samples s')), trace s', world s')"
    using sched pos fl sne by (simp add: private_sample_model_def)
  have 1: "fst (Inr (vis s', last (samples s')), trace s', world s') =
      Inr (fst (?chain (transitions_made iters sample_iter_indices)), ?strs (last ?R))"
    using vs ls by simp
  have 2: "callback_calls (fst (snd (Inr (vis s', last (samples s')), trace s', world s'))) =
      map ?rec ?R"
    using cc by simp
  have 3: "map fst (gibbs_calls (fst (snd (Inr (vis s', last (samples s')), trace s', world s'))))
      = [0..<transitions_made iters sample_iter_indices]"
    using gc by simp
  have 4: "snd (snd (Inr (vis s', last (samples s')), trace s', world s')) =
      snd (snd (?chain (transitions_made iters sample_iter_indices)))"
    using ws by simp
  show ?thesis unfolding r using 1 2 3 4 by blast
qed

theorem sample_loop_records_checkpoints_and_returns_last_witness:
  "(1::real) \<noteq> 0 \<and>
   float_pow double_arith (float_div double_arith 1 1) (float_div double_arith 1 (real_of_int 3))
     = Inr 1 \<and>
   reached_checkpoints 0 3 [2] \<noteq> [] \<and> reached_checkpoints 0 3 [0, 5] \<noteq> [] \<and>
   (\<forall>ss k en. call_callback (format_2f example_ext) quiet_callback ss k en = None) \<and>
   private_sample_model example_ext double_arith LINEAR_ANNEAL example_model
       (replicate 2 (replicate 20 0)) 3 [2] 1 1 quiet_callback False 0 =
     (Inr (replicate 2 (replicate 20 2), replicate 2 (replicate 20 CHR ''b'')),
      [Gibbs 0 1, Gibbs 1 1, Callback 2 (replicate 2 (replicate 20 CHR ''b'')) None], 2) \<and>
   callback_calls (fst (snd (private_sample_model example_ext double_arith LINEAR_ANNEAL
       example_model (replicate 2 (replicate 20 0)) 3 [2] 1 1 quiet_callback False 0))) =
     [(2, replicate 2 (replicate 20 CHR ''b''), None)] \<and>
   map fst (gibbs_calls (fst (snd (private_sample_model example_ext double_arith LINEAR_ANNEAL
       example_model (replicate 2 (replicate 20 0)) 3 [2] 1 1 quiet_callback False 0)))) = [0, 1] \<and>
   private_sample_model example_ext double_arith LINEAR_ANNEAL example_model
       (replicate 2 (replicate 20 0)) 3 [0, 5] 1 1 quiet_callback False 0 =
     (Inr (replicate 2 (replicate 20 3), replicate 2 (replicate 20 CHR ''a'')),
      [Callback 0 (replicate 2 (replicate 20 CHR ''a'')) None, Gibbs 0 1, Gibbs 1 1, Gibbs 2 1], 3) \<and>
   callback_calls (fst (snd (private_sample_model example_ext double_arith LINEAR_ANNEAL
       example_model (replicate 2 (replicate 20 0)) 3 [0, 5] 1 1 quiet_callback False 0))) =
     [(0, replicate 2 (replicate 20 CHR ''a''), None)] \<and>
   map fst (gibbs_calls (fst (snd (private_sample_model example_ext double_arith LINEAR_ANNEAL
       example_model (replicate 2 (replicate 20 0)) 3 [0, 5] 1 1 quiet_callback False 0)))) =
     [0, 1, 2]"
proof -
  let ?run1 = "private_sample_model example_ext double_arith LINEAR_ANNEAL example_model
       (replicate 2 (replicate 20 0)) 3 [2] 1 1 quiet_callback False 0"
  let ?run2 = "private_sample_model example_ext double_arith LINEAR_ANNEAL example_model
       (replicate 2 (replicate 20 0)) 3 [0, 5] 1 1 quiet_callback False 0"
  let ?dl = "float_div double_arith (float_sub double_arith 1 1) 3"
  let ?chain = "\<lambda>k. after_transitions example_ext double_arith LINEAR_ANNEAL example_model 1 ?dl k
      (replicate 2 (replicate 20 0), 1, 0)"
  have sched: "(1::real) \<noteq> 0"
    "float_pow double_arith (float_div double_arith 1 1) (float_div double_arith 1 (real_of_int 3))
       = Inr 1"
    by code_simp+
  have reach: "reached_checkpoints 0 3 [2] \<noteq> []" "reached_checkpoints 0 3 [0, 5] \<noteq> []"
    by simp_all
  have R: "reached_checkpoints 0 3 [2] = [2]" "reached_checkpoints 0 3 [0, 5] = [0]"
    "transitions_made 3 [2] = 2" "transitions_made 3 [0, 5] = 3"
    by (simp_all add: transitions_made_def)
  have cbk: "\<And>ss k en. call_callback (format_2f example_ext) quiet_callback ss k en = None"
    by (simp add: call_callback_def quiet_callback_def)
  have cbk': "\<And>ss k v'. call_callback (format_2f example_ext) quiet_callback ss k
      (if False then Some (free_energy example_ext example_model v') else None) = None"
    by (simp add: call_callback_def quiet_callback_def)
  have chain: "?chain 0 = (replicate 2 (replicate 20 0), 1, 0)"
    "?chain 2 = (replicate 2 (replicate 20 2), 1, 2)"
    "?chain 3 = (replicate 2 (replicate 20 3), 1, 3)"
    by code_simp+
  have chain0: "?chain (nat 0) = (replicate 2 (replicate 20 0), 1, 0)"
    "?chain (nat 2) = (replicate 2 (replicate 20 2), 1, 2)"
    using chain by simp_all
  have dec: "decode example_ext (codec example_model) (replicate 20 2) = replicate 20 CHR ''b''"
    "decode example_ext (codec example_model) (replicate 20 0) = replicate 20 CHR ''a''"
    by (simp_all add: example_ext_def)
  note t1 = sample_loop_records_checkpoints_and_returns_last [OF sched reach(1) cbk',
      where la = LINEAR_ANNEAL and v = "replicate 2 (replicate 20 0)" and w = 0]
  note t2 = sample_loop_records_checkpoints_and_returns_last [OF sched reach(2) cbk',
      where la = LINEAR_ANNEAL and v = "replicate 2 (replicate 20 0)" and w = 0]
  have r1: "fst ?run1 = Inr (replicate 2 (replicate 20 2), replicate 2 (replicate 20 CHR ''b''))"
    using t1 [THEN conjunct1] unfolding R by (simp add: chain chain0 dec)
  have c1: "callback_calls (fst (snd ?run1)) = [(2, replicate 2 (replicate 20 CHR ''b''), None)]"
    using t1 [THEN conjunct2, THEN conjunct1] unfolding R by (simp add: chain chain0 dec)
  have g1: "map fst (gibbs_calls (fst (snd ?run1))) = [0, 1]"
    using t1 [THEN conjunct2, THEN conjunct2, THEN conjunct1] unfolding R
    by (simp add: upt_rec [of _ "numeral _"] upt_rec [of 0] upt_rec [of "Suc _"])
  have w1: "snd (snd ?run1) = 2"
    using t1 [THEN conjunct2, THEN conjunct2, THEN conjunct2] unfolding R by (simp add: chain)
  have r2: "fst ?run2 = Inr (replicate 2 (replicate 20 3), replicate 2 (replicate 20 CHR ''a''))"
    using t2 [THEN conjunct1] unfolding R by (simp add: chain chain0 dec)
  have c2: "callback_calls (fst (snd ?run2)) = [(0, replicate 2 (replicate 20 CHR ''a''), None)]"
    using t2 [THEN conjunct2, THEN conjunct1] unfolding R by (simp add: chain chain0 dec)
  have g2: "map fst (gibbs_calls (fst (snd ?run2))) = [0, 1, 2]"
    using t2 [THEN conjunct2, THEN conjunct2, THEN conjunct1] unfolding R
    by (simp add: upt_rec [of _ "numeral _"] upt_rec [of 0] upt_rec [of "Suc _"])
  have w2: "snd (snd ?run2) = 3"
    using t2 [THEN conjunct2, THEN conjunct2, THEN conjunct2] unfolding R by (simp add: chain)
  have tr1: "fst (snd ?run1) =
      [Gibbs 0 1, Gibbs 1 1, Callback 2 (replicate 2 (replicate 20 CHR ''b'')) None]"
    by code_simp
  have tr2: "fst (snd ?run2) =
      [Callback 0 (replicate 2 (replicate 20 CHR ''a'')) None, Gibbs 0 1, Gibbs 1 1, Gibbs 2 1]"
    by code_simp
  have run1: "?run1 = (Inr (replicate 2 (replicate 20 2), replicate 2 (replicate 20 CHR ''b'')),
      [Gibbs 0 1, Gibbs 1 1, Callback 2 (replicate 2 (replicate 20 CHR ''b'')) None], 2)"
    using r1 tr1 w1 by (simp add: prod_eq_iff)
  have run2: "?run2 = (Inr (replicate 2 (replicate 20 3), replicate 2 (replicate 20 CHR ''a'')),
      [Callback 0 (replicate 2 (replicate 20 CHR ''a'')) None, Gibbs 0 1, Gibbs 1 1, Gibbs 2 1], 3)"
    using r2 tr2 w2 by (simp add: prod_eq_iff)
  show ?thesis using sched reach cbk run1 run2 c1 g1 c2 g2 by blast
qed


end
